theory Spec2Isabelle
  imports Main
begin

section \<open>Values of the Python runtime\<close>

text \<open>
  The program is \<^verbatim>\<open>0x02-redis_basic/exercise.py\<close>: a class \<^verbatim>\<open>Cache\<close> over a Redis
  connection, two decorators (\<^verbatim>\<open>count_calls\<close>, \<^verbatim>\<open>call_history\<close>) and the function
  \<^verbatim>\<open>replay\<close>. A byte string is a list of 8-bit characters. A Python \<^verbatim>\<open>str\<close> is carried
  as its UTF-8 encoding, so \<^verbatim>\<open>s.encode('utf-8')\<close> is the identity and
  \<^verbatim>\<open>b.decode('utf-8')\<close> is a validity check (a text with a lone surrogate, which has
  no UTF-8 encoding, is outside the model). A \<^verbatim>\<open>float\<close> is carried as its
  \<^verbatim>\<open>repr()\<close> text, the only thing the program and the Redis client read of it.
\<close>

type_synonym bytes = string
type_synonym key = string

datatype pyval =
    PNone
  | PBool bool
  | PInt int
  | PFloat string
  | PStr string
  | PBytes bytes

datatype response_error = WRONGTYPE | NOT_AN_INTEGER | WOULD_OVERFLOW

datatype error =
    AttributeError
  | TypeError
  | ValueError
  | UnicodeDecodeError
  | DataError
  | ConnectionError
  | ResponseError response_error

subsection \<open>Decimal text of integers\<close>

definition digit_char :: "nat \<Rightarrow> char" where
  "digit_char d = ''0123456789'' ! d"

definition is_digit :: "char \<Rightarrow> bool" where
  "is_digit c = (48 \<le> (of_char c :: nat) \<and> (of_char c :: nat) \<le> 57)"

definition digit_val :: "char \<Rightarrow> nat" where
  "digit_val c = of_char c - 48"

fun dec_nat :: "nat \<Rightarrow> string" where
  "dec_nat n = (if n < 10 then [digit_char n] else dec_nat (n div 10) @ [digit_char (n mod 10)])"

declare dec_nat.simps [simp del]

text \<open>\<^verbatim>\<open>repr(n)\<close> of a Python \<^verbatim>\<open>int\<close>, also the text Redis writes for an integer.\<close>

definition dec_int :: "int \<Rightarrow> string" where
  "dec_int i = (if i < 0 then CHR ''-'' # dec_nat (nat (- i)) else dec_nat (nat i))"

definition nat_of_digits :: "string \<Rightarrow> nat" where
  "nat_of_digits ds = foldl (\<lambda>a c. 10 * a + digit_val c) 0 ds"

subsection \<open>\<^verbatim>\<open>int(x)\<close> on a byte string\<close>

text \<open>
  CPython reads \<^verbatim>\<open>int(b)\<close> in base 10 as: optional ASCII whitespace, an optional sign,
  decimal digits with single underscores allowed between two digits, optional whitespace,
  and nothing else; anything else raises \<^verbatim>\<open>ValueError\<close>.
\<close>

definition py_isspace :: "char \<Rightarrow> bool" where
  "py_isspace c = ((of_char c :: nat) = 32 \<or> (9 \<le> (of_char c :: nat) \<and> (of_char c :: nat) \<le> 13))"

fun digit_run :: "string \<Rightarrow> string option" where
  "digit_run [] = None"
| "digit_run [c] = (if is_digit c then Some [c] else None)"
| "digit_run (c # d # cs) =
     (if \<not> is_digit c then None
      else if d = CHR ''_'' then map_option ((#) c) (digit_run cs)
      else map_option ((#) c) (digit_run (d # cs)))"

definition py_strip :: "string \<Rightarrow> string" where
  "py_strip s = rev (dropWhile py_isspace (rev (dropWhile py_isspace s)))"

definition py_int_of_bytes :: "bytes \<Rightarrow> error + int" where
  "py_int_of_bytes b =
     (let s = py_strip b;
          neg = (s \<noteq> [] \<and> hd s = CHR ''-'');
          body = (if s \<noteq> [] \<and> (hd s = CHR ''-'' \<or> hd s = CHR ''+'') then tl s else s)
      in case digit_run body of
           None \<Rightarrow> Inl ValueError
         | Some ds \<Rightarrow> Inr (if neg then - int (nat_of_digits ds) else int (nat_of_digits ds)))"

subsection \<open>Integers as the Redis server reads them\<close>

text \<open>
  Modelled from the spec: the store is an external collaborator (section 6 of the
  specification lists its commands); the server's reading of a stored string as a
  64-bit integer for \<^verbatim>\<open>INCR\<close> follows the Redis command reference: at most 20
  characters, an optional minus sign, no leading zero, no plus sign, no blanks, and a
  value between \<open>- 2^63\<close> and \<open>2^63 - 1\<close>.
\<close>

definition string2ll :: "bytes \<Rightarrow> int option" where
  "string2ll s =
     (if s = [] \<or> 21 \<le> length s then None
      else if s = ''0'' then Some 0
      else let neg = (hd s = CHR ''-'');
               r = (if neg then tl s else s)
           in if r = [] then None
              else if \<not> is_digit (hd r) \<or> hd r = CHR ''0'' then None
              else if \<not> list_all is_digit r then None
              else if neg then
                (if 2 ^ 63 < int (nat_of_digits r) then None else Some (- int (nat_of_digits r)))
              else
                (if 2 ^ 63 - 1 < int (nat_of_digits r) then None else Some (int (nat_of_digits r))))"

subsection \<open>UTF-8 text\<close>

definition byte_in :: "nat \<Rightarrow> nat \<Rightarrow> char \<Rightarrow> bool" where
  "byte_in lo hi c = (lo \<le> (of_char c :: nat) \<and> (of_char c :: nat) \<le> hi)"

text \<open>The well-formed byte sequences of UTF-8, which the strict decoder accepts.\<close>

fun valid_utf8 :: "bytes \<Rightarrow> bool" where
  "valid_utf8 [] = True"
| "valid_utf8 (a # bs) =
     (if byte_in 0 0x7F a then valid_utf8 bs
      else if byte_in 0xC2 0xDF a then
        (case bs of
           b # r \<Rightarrow> byte_in 0x80 0xBF b \<and> valid_utf8 r
         | _ \<Rightarrow> False)
      else if byte_in 0xE0 0xEF a then
        (case bs of
           b # c # r \<Rightarrow>
             byte_in (if a = CHR 0xE0 then 0xA0 else 0x80) (if a = CHR 0xED then 0x9F else 0xBF) b
             \<and> byte_in 0x80 0xBF c \<and> valid_utf8 r
         | _ \<Rightarrow> False)
      else if byte_in 0xF0 0xF4 a then
        (case bs of
           b # c # d # r \<Rightarrow>
             byte_in (if a = CHR 0xF0 then 0x90 else 0x80) (if a = CHR 0xF4 then 0x8F else 0xBF) b
             \<and> byte_in 0x80 0xBF c \<and> byte_in 0x80 0xBF d \<and> valid_utf8 r
         | _ \<Rightarrow> False)
      else False)"

subsection \<open>Display forms: \<^verbatim>\<open>repr\<close> and \<^verbatim>\<open>str\<close>\<close>

definition hex_digit :: "nat \<Rightarrow> char" where
  "hex_digit d = ''0123456789abcdef'' ! d"

text \<open>Single quotes, unless the text holds a single quote and no double quote.\<close>

definition py_quote :: "string \<Rightarrow> char" where
  "py_quote s = (if CHR 0x27 \<in> set s \<and> CHR 0x22 \<notin> set s then CHR 0x22 else CHR 0x27)"

definition hex_escape :: "char \<Rightarrow> string" where
  "hex_escape c =
     [CHR 0x5C, CHR ''x'', hex_digit ((of_char c :: nat) div 16), hex_digit ((of_char c :: nat) mod 16)]"

definition repr_byte :: "char \<Rightarrow> char \<Rightarrow> string" where
  "repr_byte q c =
     (if c = q \<or> c = CHR 0x5C then [CHR 0x5C, c]
      else if c = CHR 0x09 then [CHR 0x5C, CHR ''t'']
      else if c = CHR 0x0A then [CHR 0x5C, CHR ''n'']
      else if c = CHR 0x0D then [CHR 0x5C, CHR ''r'']
      else if (of_char c :: nat) < 32 \<or> 127 \<le> (of_char c :: nat) then hex_escape c
      else [c])"

text \<open>\<^verbatim>\<open>repr(b)\<close> of a \<^verbatim>\<open>bytes\<close> object, which is also its \<^verbatim>\<open>str(b)\<close>.\<close>

definition repr_bytes :: "bytes \<Rightarrow> string" where
  "repr_bytes b = CHR ''b'' # py_quote b # concat (map (repr_byte (py_quote b)) b) @ [py_quote b]"

text \<open>
  The characters of a text: each with its code point and the bytes that encode it. On
  valid UTF-8, which every text in this model is, the lead byte tells the length; a byte
  that starts no sequence is taken as a character of its own.
\<close>

definition tail_bits :: "char \<Rightarrow> nat" where
  "tail_bits c = (of_char c :: nat) - 0x80"

fun utf8_split :: "bytes \<Rightarrow> (nat \<times> bytes) list" where
  "utf8_split [] = []"
| "utf8_split (a # bs) =
     (if byte_in 0xC2 0xDF a then
        (case bs of
           b # r \<Rightarrow> (((of_char a :: nat) - 0xC0) * 64 + tail_bits b, [a, b]) # utf8_split r
         | _ \<Rightarrow> (of_char a, [a]) # utf8_split bs)
      else if byte_in 0xE0 0xEF a then
        (case bs of
           b # c # r \<Rightarrow>
             ((((of_char a :: nat) - 0xE0) * 64 + tail_bits b) * 64 + tail_bits c, [a, b, c])
             # utf8_split r
         | _ \<Rightarrow> (of_char a, [a]) # utf8_split bs)
      else if byte_in 0xF0 0xF4 a then
        (case bs of
           b # c # d # r \<Rightarrow>
             (((((of_char a :: nat) - 0xF0) * 64 + tail_bits b) * 64 + tail_bits c) * 64
                + tail_bits d, [a, b, c, d])
             # utf8_split r
         | _ \<Rightarrow> (of_char a, [a]) # utf8_split bs)
      else (of_char a, [a]) # utf8_split bs)"

text \<open>The \<open>n\<close> lower-case hexadecimal digits of a code point.\<close>

definition hex_fixed :: "nat \<Rightarrow> nat \<Rightarrow> string" where
  "hex_fixed n cp = map (\<lambda>i. hex_digit ((cp div 16 ^ i) mod 16)) (rev [0..<n])"

text \<open>
  \<^verbatim>\<open>repr(s)\<close> of a \<^verbatim>\<open>str\<close>. An ASCII character is shown as in bytes. A character
  from code point 128 on is copied when the interpreter's Unicode database calls it
  printable (the parameter \<open>printable\<close>, the \<^verbatim>\<open>str.isprintable\<close> of one character), and
  otherwise escaped: a backslash, then \<open>x\<close> and two hexadecimal digits, \<open>u\<close> and
  four, or \<open>U\<close> and eight, by the size of the code point.
\<close>

definition repr_char :: "(nat \<Rightarrow> bool) \<Rightarrow> char \<Rightarrow> nat \<times> bytes \<Rightarrow> string" where
  "repr_char printable q ch =
     (case ch of (cp, bs) \<Rightarrow>
        if cp < 128 then concat (map (repr_byte q) bs)
        else if printable cp then bs
        else if cp \<le> 0xFF then [CHR 0x5C, CHR ''x''] @ hex_fixed 2 cp
        else if cp \<le> 0xFFFF then [CHR 0x5C, CHR ''u''] @ hex_fixed 4 cp
        else [CHR 0x5C, CHR ''U''] @ hex_fixed 8 cp)"

definition repr_str :: "(nat \<Rightarrow> bool) \<Rightarrow> string \<Rightarrow> string" where
  "repr_str printable s =
     py_quote s # concat (map (repr_char printable (py_quote s)) (utf8_split s)) @ [py_quote s]"

fun py_repr :: "(nat \<Rightarrow> bool) \<Rightarrow> pyval \<Rightarrow> string" where
  "py_repr printable PNone = ''None''"
| "py_repr printable (PBool b) = (if b then ''True'' else ''False'')"
| "py_repr printable (PInt n) = dec_int n"
| "py_repr printable (PFloat r) = r"
| "py_repr printable (PStr s) = repr_str printable s"
| "py_repr printable (PBytes b) = repr_bytes b"

fun comma_join :: "string list \<Rightarrow> string" where
  "comma_join [] = []"
| "comma_join [x] = x"
| "comma_join (x # y # ys) = x @ '', '' @ comma_join (y # ys)"

text \<open>\<^verbatim>\<open>str(args)\<close> of the tuple of positional arguments.\<close>

definition str_tuple :: "(nat \<Rightarrow> bool) \<Rightarrow> pyval list \<Rightarrow> string" where
  "str_tuple printable args =
     (case args of
        [] \<Rightarrow> ''()''
      | [x] \<Rightarrow> ''('' @ py_repr printable x @ '',)''
      | _ \<Rightarrow> ''('' @ comma_join (map (py_repr printable) args) @ '')'')"

subsection \<open>\<^verbatim>\<open>str(uuid4())\<close>\<close>

definition uuid_class :: "char \<Rightarrow> char" where
  "uuid_class c =
     (if c \<in> set ''0123456789abcdef'' then CHR ''x'' else if c = CHR ''-'' then CHR ''-'' else CHR ''?'')"

text \<open>
  The text of a random UUID: 32 lower-case hexadecimal digits in groups of 8, 4, 4, 4 and
  12, the version digit 4 and a variant digit among 8, 9, a, b.
\<close>

definition is_uuid4_str :: "string \<Rightarrow> bool" where
  "is_uuid4_str s =
     (map uuid_class s = ''xxxxxxxx-xxxx-xxxx-xxxx-xxxxxxxxxxxx''
      \<and> s ! 14 = CHR ''4'' \<and> s ! 19 \<in> set ''89ab'')"

section \<open>The environment: the Redis server, the UUID source, standard output\<close>

text \<open>
  Modelled from the spec: the key-value store is not code of this repository. Its
  commands are those of section 6 of the specification (SET, GET, INCR, EXISTS, RPUSH,
  LRANGE, FLUSHDB), with the behaviour of the Redis command reference: a key holds a
  string or a list, a command on a key of the wrong kind is answered by a
  \<^verbatim>\<open>WRONGTYPE\<close> error, an absent key counts as 0 for INCR and as the empty list for
  RPUSH and LRANGE.
\<close>

datatype rval = RStr bytes | RList "bytes list"

datatype command =
    FLUSHDB bool
  | SET key bytes
  | GET key
  | INCR key
  | EXISTS key
  | RPUSH key bytes
  | LRANGE key int int

text \<open>
  The world outside the program: whether the server answers, its database, the commands
  it has received in order, the results \<^verbatim>\<open>uuid4()\<close> will give, the lines printed
  (one entry for each call of \<^verbatim>\<open>print\<close>), and which code points from 128 on the
  interpreter's Unicode database calls printable.
\<close>

record world =
  online :: bool
  db :: "key \<rightharpoonup> rval"
  sent :: "command list"
  uuid_source :: "nat \<Rightarrow> string"
  uuid_drawn :: nat
  stdout :: "string list"
  isprintable :: "nat \<Rightarrow> bool"

text \<open>A computation either raises or returns, and leaves the world as changed so far.\<close>

type_synonym 'a io = "world \<Rightarrow> (error + 'a) \<times> world"

definition ret :: "'a \<Rightarrow> 'a io" where
  "ret x w = (Inr x, w)"

definition raise :: "error \<Rightarrow> 'a io" where
  "raise e w = (Inl e, w)"

definition io_bind :: "'a io \<Rightarrow> ('a \<Rightarrow> 'b io) \<Rightarrow> 'b io" where
  "io_bind m f w = (case m w of (Inl e, w') \<Rightarrow> (Inl e, w') | (Inr x, w') \<Rightarrow> f x w')"

definition print :: "string \<Rightarrow> unit io" where
  "print line w = (Inr (), w\<lparr>stdout := stdout w @ [line]\<rparr>)"

definition uuid4 :: "string io" where
  "uuid4 w = (Inr (uuid_source w (uuid_drawn w)), w\<lparr>uuid_drawn := Suc (uuid_drawn w)\<rparr>)"

subsection \<open>The client's encoding of a value\<close>

text \<open>
  The Redis client sends bytes as they are, text as UTF-8, an \<^verbatim>\<open>int\<close> or a
  \<^verbatim>\<open>float\<close> as its \<^verbatim>\<open>repr\<close>, and refuses \<^verbatim>\<open>bool\<close>, \<^verbatim>\<open>None\<close> and every other
  type with \<^verbatim>\<open>DataError\<close> before anything is sent.
\<close>

fun encode :: "pyval \<Rightarrow> error + bytes" where
  "encode (PBytes b) = Inr b"
| "encode (PBool b) = Inl DataError"
| "encode (PInt n) = Inr (dec_int n)"
| "encode (PFloat r) = Inr r"
| "encode (PStr s) = Inr s"
| "encode PNone = Inl DataError"

text \<open>The client connects before it encodes a command; then the command is sent.\<close>

definition connect :: "unit io" where
  "connect w = (if online w then (Inr (), w) else (Inl ConnectionError, w))"

definition send :: "command \<Rightarrow> unit io" where
  "send c w = (if online w then (Inr (), w\<lparr>sent := sent w @ [c]\<rparr>) else (Inl ConnectionError, w))"

subsection \<open>The commands\<close>

definition redis_flushdb :: "bool \<Rightarrow> unit io" where
  "redis_flushdb asynchronous =
     io_bind (send (FLUSHDB asynchronous)) (\<lambda>_ w. (Inr (), w\<lparr>db := Map.empty\<rparr>))"

definition redis_set :: "key \<Rightarrow> pyval \<Rightarrow> unit io" where
  "redis_set k v =
     io_bind connect (\<lambda>_.
       case encode v of
         Inl e \<Rightarrow> raise e
       | Inr b \<Rightarrow> io_bind (send (SET k b)) (\<lambda>_ w. (Inr (), w\<lparr>db := (db w)(k \<mapsto> RStr b)\<rparr>)))"

definition redis_get :: "key \<Rightarrow> bytes option io" where
  "redis_get k =
     io_bind (send (GET k)) (\<lambda>_ w.
       case db w k of
         None \<Rightarrow> (Inr None, w)
       | Some (RStr b) \<Rightarrow> (Inr (Some b), w)
       | Some (RList xs) \<Rightarrow> (Inl (ResponseError WRONGTYPE), w))"

definition redis_incr :: "key \<Rightarrow> int io" where
  "redis_incr k =
     io_bind (send (INCR k)) (\<lambda>_ w.
       case db w k of
         None \<Rightarrow> (Inr 1, w\<lparr>db := (db w)(k \<mapsto> RStr (dec_int 1))\<rparr>)
       | Some (RList xs) \<Rightarrow> (Inl (ResponseError WRONGTYPE), w)
       | Some (RStr b) \<Rightarrow>
           (case string2ll b of
              None \<Rightarrow> (Inl (ResponseError NOT_AN_INTEGER), w)
            | Some n \<Rightarrow>
                if 2 ^ 63 - 1 - 1 < n then (Inl (ResponseError WOULD_OVERFLOW), w)
                else (Inr (n + 1), w\<lparr>db := (db w)(k \<mapsto> RStr (dec_int (n + 1)))\<rparr>)))"

definition redis_exists :: "key \<Rightarrow> int io" where
  "redis_exists k =
     io_bind (send (EXISTS k)) (\<lambda>_ w. (Inr (if db w k = None then 0 else 1), w))"

definition redis_rpush :: "key \<Rightarrow> pyval \<Rightarrow> int io" where
  "redis_rpush k v =
     io_bind connect (\<lambda>_.
       case encode v of
         Inl e \<Rightarrow> raise e
       | Inr b \<Rightarrow>
           io_bind (send (RPUSH k b)) (\<lambda>_ w.
             case db w k of
               None \<Rightarrow> (Inr 1, w\<lparr>db := (db w)(k \<mapsto> RList [b])\<rparr>)
             | Some (RList xs) \<Rightarrow>
                 (Inr (int (length xs) + 1), w\<lparr>db := (db w)(k \<mapsto> RList (xs @ [b]))\<rparr>)
             | Some (RStr x) \<Rightarrow> (Inl (ResponseError WRONGTYPE), w)))"

text \<open>The elements from index \<open>start\<close> to index \<open>stop\<close>, both counted from the end when negative.\<close>

definition list_range :: "'a list \<Rightarrow> int \<Rightarrow> int \<Rightarrow> 'a list" where
  "list_range xs start stop =
     (let llen = int (length xs);
          s0 = (if start < 0 then llen + start else start);
          e0 = (if stop < 0 then llen + stop else stop);
          s = (if s0 < 0 then 0 else s0)
      in if e0 < s \<or> llen \<le> s then []
         else take (nat ((if llen \<le> e0 then llen - 1 else e0) - s + 1)) (drop (nat s) xs))"

definition redis_lrange :: "key \<Rightarrow> int \<Rightarrow> int \<Rightarrow> bytes list io" where
  "redis_lrange k start stop =
     io_bind (send (LRANGE k start stop)) (\<lambda>_ w.
       case db w k of
         None \<Rightarrow> (Inr [], w)
       | Some (RList xs) \<Rightarrow> (Inr (list_range xs start stop), w)
       | Some (RStr x) \<Rightarrow> (Inl (ResponseError WRONGTYPE), w))"

section \<open>The program\<close>

text \<open>
  What the attribute \<^verbatim>\<open>_redis\<close> of an object holds: an instance of \<^verbatim>\<open>redis.Redis\<close>;
  an object of another class that answers the same commands (a stand-in, taken to talk to
  the same store); or \<^verbatim>\<open>None\<close>, on which every command raises \<^verbatim>\<open>AttributeError\<close>.
\<close>

datatype handle = RedisInst | StandIn | NoneHandle

record cache =
  redis :: handle

definition isinstance_Redis :: "handle \<Rightarrow> bool" where
  "isinstance_Redis h = (h = RedisInst)"

text \<open>\<^verbatim>\<open>h.command(...)\<close>: the attribute lookup fails on \<^verbatim>\<open>None\<close>.\<close>

definition on_handle :: "handle \<Rightarrow> 'a io \<Rightarrow> 'a io" where
  "on_handle h m = (case h of NoneHandle \<Rightarrow> raise AttributeError | _ \<Rightarrow> m)"

text \<open>
  A method: its \<^verbatim>\<open>__qualname__\<close> and what a call does with \<^verbatim>\<open>self\<close>, the positional
  arguments and the keyword arguments. \<^verbatim>\<open>@wraps(method)\<close> gives the wrapper the
  \<^verbatim>\<open>__qualname__\<close> of the method it wraps.
\<close>

record py_method =
  qualname :: string
  invoke :: "cache \<Rightarrow> pyval list \<Rightarrow> (string \<times> pyval) list \<Rightarrow> pyval io"

definition count_calls :: "py_method \<Rightarrow> py_method" where
  "count_calls m =
     \<lparr>qualname = qualname m,
      invoke = (\<lambda>self args kwargs.
        io_bind
          (if isinstance_Redis (redis self) then io_bind (redis_incr (qualname m)) (\<lambda>_. ret ())
           else ret ())
          (\<lambda>_. invoke m self args kwargs))\<rparr>"

text \<open>\<^verbatim>\<open>str(args)\<close>, as this interpreter displays text.\<close>

definition str_of_args :: "pyval list \<Rightarrow> string io" where
  "str_of_args args w = (Inr (str_tuple (isprintable w) args), w)"

definition call_history :: "py_method \<Rightarrow> py_method" where
  "call_history m =
     \<lparr>qualname = qualname m,
      invoke = (\<lambda>self args kwargs.
        let input_key = qualname m @ '':inputs'';
            output_key = qualname m @ '':outputs''
        in io_bind (invoke m self args kwargs) (\<lambda>output.
           io_bind
             (if isinstance_Redis (redis self) then
                io_bind (str_of_args args) (\<lambda>text.
                io_bind (redis_rpush input_key (PStr text)) (\<lambda>_.
                io_bind (redis_rpush output_key output) (\<lambda>_. ret ())))
              else ret ())
             (\<lambda>_. ret output)))\<rparr>"

subsection \<open>The class \<^verbatim>\<open>Cache\<close>\<close>

definition Cache_init :: "cache io" where
  "Cache_init = io_bind (redis_flushdb True) (\<lambda>_. ret \<lparr>redis = RedisInst\<rparr>)"

text \<open>
  The binding of the one parameter \<^verbatim>\<open>data\<close> of \<^verbatim>\<open>store(self, data)\<close>; any other shape
  of call raises \<^verbatim>\<open>TypeError\<close>.
\<close>

definition bind_data :: "pyval list \<Rightarrow> (string \<times> pyval) list \<Rightarrow> error + pyval" where
  "bind_data args kwargs =
     (case (args, kwargs) of
        ([v], []) \<Rightarrow> Inr v
      | ([], [(n, v)]) \<Rightarrow> if n = ''data'' then Inr v else Inl TypeError
      | _ \<Rightarrow> Inl TypeError)"

definition store_body :: "cache \<Rightarrow> pyval list \<Rightarrow> (string \<times> pyval) list \<Rightarrow> pyval io" where
  "store_body self args kwargs =
     (case bind_data args kwargs of
        Inl e \<Rightarrow> raise e
      | Inr data \<Rightarrow>
          io_bind uuid4 (\<lambda>data_key.
          io_bind (on_handle (redis self) (redis_set data_key data)) (\<lambda>_.
          ret (PStr data_key))))"

definition store_method :: py_method where
  "store_method = \<lparr>qualname = ''Cache.store'', invoke = store_body\<rparr>"

definition Cache_store :: py_method where
  "Cache_store = count_calls (call_history store_method)"

text \<open>\<^verbatim>\<open>cache.store(data)\<close>, the call with one positional argument.\<close>

definition store :: "cache \<Rightarrow> pyval \<Rightarrow> pyval io" where
  "store self data = invoke Cache_store self [data] []"

text \<open>The reply of GET as a Python value: \<^verbatim>\<open>None\<close> for an absent key.\<close>

definition reply_val :: "bytes option \<Rightarrow> pyval" where
  "reply_val r = (case r of None \<Rightarrow> PNone | Some b \<Rightarrow> PBytes b)"

definition Cache_get :: "cache \<Rightarrow> key \<Rightarrow> (bytes option \<Rightarrow> pyval io) option \<Rightarrow> pyval io" where
  "Cache_get self k fn =
     io_bind (on_handle (redis self) (redis_get k)) (\<lambda>data.
       case fn of Some f \<Rightarrow> f data | None \<Rightarrow> ret (reply_val data))"

text \<open>\<^verbatim>\<open>lambda x: x.decode('utf-8')\<close>; \<^verbatim>\<open>None\<close> has no \<^verbatim>\<open>decode\<close>.\<close>

definition decode_utf8 :: "bytes option \<Rightarrow> pyval io" where
  "decode_utf8 x =
     (case x of
        None \<Rightarrow> raise AttributeError
      | Some b \<Rightarrow> if valid_utf8 b then ret (PStr b) else raise UnicodeDecodeError)"

text \<open>\<^verbatim>\<open>lambda x: int(x)\<close>; \<^verbatim>\<open>int(None)\<close> raises \<^verbatim>\<open>TypeError\<close>.\<close>

definition to_int :: "bytes option \<Rightarrow> pyval io" where
  "to_int x =
     (case x of
        None \<Rightarrow> raise TypeError
      | Some b \<Rightarrow> (case py_int_of_bytes b of Inl e \<Rightarrow> raise e | Inr n \<Rightarrow> ret (PInt n)))"

definition Cache_get_str :: "cache \<Rightarrow> key \<Rightarrow> pyval io" where
  "Cache_get_str self k = Cache_get self k (Some decode_utf8)"

definition Cache_get_int :: "cache \<Rightarrow> key \<Rightarrow> pyval io" where
  "Cache_get_int self k = Cache_get self k (Some to_int)"

subsection \<open>\<^verbatim>\<open>replay\<close>\<close>

text \<open>
  The argument of \<^verbatim>\<open>replay\<close>: \<^verbatim>\<open>None\<close>; an object without \<^verbatim>\<open>__self__\<close>; or a bound
  method, given by the \<^verbatim>\<open>_redis\<close> attribute of its \<^verbatim>\<open>__self__\<close> (\<^verbatim>\<open>None\<close> when the
  object has no such attribute) and its \<^verbatim>\<open>__qualname__\<close>.
\<close>

datatype callable = PyNone | NoSelf | BoundMethod cache string

definition history_line :: "string \<Rightarrow> string \<Rightarrow> bytes \<Rightarrow> string" where
  "history_line fxn_name input_text fxn_output =
     fxn_name @ ''(*'' @ input_text @ '') -> '' @ repr_bytes fxn_output"

fun print_pairs :: "string \<Rightarrow> (bytes \<times> bytes) list \<Rightarrow> unit io" where
  "print_pairs fxn_name [] = ret ()"
| "print_pairs fxn_name ((fxn_input, fxn_output) # rest) =
     (if valid_utf8 fxn_input then
        io_bind (print (history_line fxn_name fxn_input fxn_output)) (\<lambda>_.
          print_pairs fxn_name rest)
      else raise UnicodeDecodeError)"

definition header_line :: "string \<Rightarrow> int \<Rightarrow> string" where
  "header_line fxn_name fxn_call_count =
     fxn_name @ '' was called '' @ dec_int fxn_call_count @ '' times:''"

definition read_count :: "string \<Rightarrow> int io" where
  "read_count fxn_name =
     io_bind (redis_exists fxn_name) (\<lambda>e.
       if e \<noteq> 0 then
         io_bind (redis_get fxn_name) (\<lambda>r.
           case r of
             None \<Rightarrow> raise TypeError
           | Some b \<Rightarrow> (case py_int_of_bytes b of Inl e \<Rightarrow> raise e | Inr n \<Rightarrow> ret n))
       else ret 0)"

definition replay :: "callable \<Rightarrow> unit io" where
  "replay fn =
     (case fn of
        PyNone \<Rightarrow> ret ()
      | NoSelf \<Rightarrow> ret ()
      | BoundMethod self fxn_name \<Rightarrow>
          if \<not> isinstance_Redis (redis self) then ret ()
          else
            let in_key = fxn_name @ '':inputs'';
                out_key = fxn_name @ '':outputs''
            in io_bind (read_count fxn_name) (\<lambda>fxn_call_count.
               io_bind (print (header_line fxn_name fxn_call_count)) (\<lambda>_.
               io_bind (redis_lrange in_key 0 (- 1)) (\<lambda>fxn_inputs.
               io_bind (redis_lrange out_key 0 (- 1)) (\<lambda>fxn_outputs.
               print_pairs fxn_name (zip fxn_inputs fxn_outputs))))))"

section \<open>Observations and sample runs\<close>

text \<open>
  The call counter of an operation as INCR reads it (0 for an absent key), and a history
  sequence as LRANGE reads it (empty for an absent key); \<open>None\<close> when the key holds
  something the command refuses.
\<close>

definition counter_of :: "world \<Rightarrow> key \<Rightarrow> int option" where
  "counter_of w k =
     (case db w k of
        None \<Rightarrow> Some 0
      | Some (RStr b) \<Rightarrow> string2ll b
      | Some (RList xs) \<Rightarrow> None)"

definition history_of :: "world \<Rightarrow> key \<Rightarrow> bytes list option" where
  "history_of w k =
     (case db w k of
        None \<Rightarrow> Some []
      | Some (RList xs) \<Rightarrow> Some xs
      | Some (RStr b) \<Rightarrow> None)"

text \<open>The values of the four types \<^verbatim>\<open>store\<close> is declared for.\<close>

fun is_scalar :: "pyval \<Rightarrow> bool" where
  "is_scalar (PStr s) = True"
| "is_scalar (PBytes b) = True"
| "is_scalar (PInt n) = True"
| "is_scalar (PFloat r) = True"
| "is_scalar v = False"

text \<open>The byte form of a scalar, which is what the client sends for it.\<close>

fun byte_form :: "pyval \<Rightarrow> bytes" where
  "byte_form (PStr s) = s"
| "byte_form (PBytes b) = b"
| "byte_form (PInt n) = dec_int n"
| "byte_form (PFloat r) = r"
| "byte_form v = []"

text \<open>\<^verbatim>\<open>store\<close> called on each value of a list in turn; the identifiers returned, in order.\<close>

fun store_all :: "cache \<Rightarrow> pyval list \<Rightarrow> string list io" where
  "store_all self [] = ret []"
| "store_all self (v # vs) =
     io_bind (store self v) (\<lambda>r.
     io_bind (store_all self vs) (\<lambda>ks.
       ret ((case r of PStr k \<Rightarrow> k | _ \<Rightarrow> []) # ks)))"

text \<open>The lines printed by a computation: what it appended to standard output.\<close>

definition printed :: "'a io \<Rightarrow> world \<Rightarrow> string list" where
  "printed m w = drop (length (stdout w)) (stdout (snd (m w)))"

text \<open>Sample inputs: two identifiers, a server that has just started, stores after some activity.\<close>

definition uuid_a :: string where
  "uuid_a = ''3f2b8c1e-9d4a-4f6b-8a1c-0e5d7c9b2a41''"

definition uuid_b :: string where
  "uuid_b = ''0a1b2c3d-4e5f-4a6b-9c7d-8e9f0a1b2c3d''"

definition sample_uuids :: "nat \<Rightarrow> string" where
  "sample_uuids i = (if i = 0 then uuid_a else uuid_b)"

text \<open>
  A sample of the Unicode database: the controls from 128 to 159, the no-break space, the
  soft hyphen and the line and paragraph separators are not printable.
\<close>

definition sample_printable :: "nat \<Rightarrow> bool" where
  "sample_printable cp = (\<not> (cp \<le> 0xA0 \<or> cp = 0xAD \<or> cp = 0x2028 \<or> cp = 0x2029))"

definition fresh_world :: world where
  "fresh_world =
     \<lparr>online = True, db = Map.empty, sent = [], uuid_source = sample_uuids, uuid_drawn = 0,
      stdout = [], isprintable = sample_printable\<rparr>"

definition used_world :: world where
  "used_world =
     \<lparr>online = True,
      db = [''Cache.store'' \<mapsto> RStr ''3'',
            ''Cache.store:inputs'' \<mapsto> RList [''(1,)'', ''(2,)''],
            ''Cache.store:outputs'' \<mapsto> RList [uuid_a],
            ''greeting'' \<mapsto> RStr ''hello'',
            ''answer'' \<mapsto> RStr '' +4_2 ''],
      sent = [], uuid_source = sample_uuids, uuid_drawn = 0, stdout = [],
      isprintable = sample_printable\<rparr>"

definition a_cache :: cache where
  "a_cache = \<lparr>redis = RedisInst\<rparr>"

section \<open>Decimal text: printing and reading back\<close>

lemma digit_cases:
  "d < 10 \<Longrightarrow> d = 0 \<or> d = 1 \<or> d = 2 \<or> d = 3 \<or> d = 4 \<or> d = 5 \<or> d = 6 \<or> d = 7 \<or> d = 8 \<or> d = (9::nat)"
  by arith

lemma digit_char_props:
  assumes "d < 10"
  shows "digit_val (digit_char d) = d" and "is_digit (digit_char d)"
    and "(digit_char d = CHR ''0'') = (d = 0)"
  using digit_cases [OF assms]
  by (auto simp: digit_val_def digit_char_def is_digit_def)

lemma is_digit_plain:
  "is_digit c \<Longrightarrow> \<not> py_isspace c \<and> c \<noteq> CHR ''_'' \<and> c \<noteq> CHR ''-'' \<and> c \<noteq> CHR ''+''"
  by (auto simp: is_digit_def py_isspace_def)

lemma dec_nat_digits: "list_all is_digit (dec_nat n)"
  by (induction n rule: dec_nat.induct) (subst dec_nat.simps, simp add: digit_char_props)

lemma dec_nat_nonempty: "dec_nat n \<noteq> []"
  by (subst dec_nat.simps) simp

lemma nat_of_digits_snoc: "nat_of_digits (ds @ [c]) = 10 * nat_of_digits ds + digit_val c"
  by (simp add: nat_of_digits_def)

lemma nat_of_digits_dec_nat: "nat_of_digits (dec_nat n) = n"
proof (induction n rule: dec_nat.induct)
  case (1 n)
  show ?case
  proof (cases "n < 10")
    case True
    then show ?thesis
      by (subst dec_nat.simps) (simp add: nat_of_digits_def digit_char_props)
  next
    case False
    with 1 show ?thesis
      by (subst dec_nat.simps) (simp add: nat_of_digits_snoc digit_char_props)
  qed
qed

lemma hd_dec_nat: "(hd (dec_nat n) = CHR ''0'') = (n = 0)"
proof (induction n rule: dec_nat.induct)
  case (1 n)
  show ?case
  proof (cases "n < 10")
    case True
    then show ?thesis
      by (subst dec_nat.simps) (simp add: digit_char_props)
  next
    case False
    then have "n div 10 \<noteq> 0" by simp
    with 1 False show ?thesis
      by (subst dec_nat.simps) (simp add: dec_nat_nonempty)
  qed
qed

lemma length_dec_nat: "n < 10 ^ Suc k \<Longrightarrow> length (dec_nat n) \<le> Suc k"
proof (induction n arbitrary: k rule: dec_nat.induct)
  case (1 n)
  show ?case
  proof (cases "n < 10")
    case True
    then show ?thesis
      by (subst dec_nat.simps) simp
  next
    case False
    then obtain j where k: "k = Suc j" using "1.prems" by (cases k) auto
    from "1.prems" k have "n div 10 < 10 ^ Suc j" by (simp add: less_mult_imp_div_less)
    with 1 False have "length (dec_nat (n div 10)) \<le> Suc j" by blast
    with False k show ?thesis
      by (subst dec_nat.simps) simp
  qed
qed

lemma digit_run_digits: "ds \<noteq> [] \<Longrightarrow> list_all is_digit ds \<Longrightarrow> digit_run ds = Some ds"
  by (induction ds rule: digit_run.induct) (auto simp: is_digit_plain)

lemma dropWhile_hd_id: "xs \<noteq> [] \<Longrightarrow> \<not> P (hd xs) \<Longrightarrow> dropWhile P xs = xs"
  by (cases xs) auto

lemma py_strip_id:
  "s \<noteq> [] \<Longrightarrow> \<not> py_isspace (hd s) \<Longrightarrow> \<not> py_isspace (last s) \<Longrightarrow> py_strip s = s"
  by (simp add: py_strip_def dropWhile_hd_id hd_rev)

lemma hd_dec_nat_digit: "is_digit (hd (dec_nat n))"
  using dec_nat_digits [of n] dec_nat_nonempty [of n] by (cases "dec_nat n") auto

lemma last_dec_nat_digit: "is_digit (last (dec_nat n))"
  using dec_nat_digits [of n] dec_nat_nonempty [of n]
  by (metis last_in_set list_all_iff)

text \<open>Python reads the decimal text of every integer back as that integer.\<close>

lemma py_int_of_dec_int: "py_int_of_bytes (dec_int i) = Inr i"
proof (cases "i < 0")
  case True
  have "py_strip (CHR ''-'' # dec_nat (nat (- i))) = CHR ''-'' # dec_nat (nat (- i))"
    using is_digit_plain [OF last_dec_nat_digit [of "nat (- i)"]] dec_nat_nonempty [of "nat (- i)"]
    by (intro py_strip_id) (auto simp: py_isspace_def)
  with True show ?thesis
    by (simp add: py_int_of_bytes_def dec_int_def digit_run_digits dec_nat_digits dec_nat_nonempty
        nat_of_digits_dec_nat)
next
  case False
  have s: "py_strip (dec_nat (nat i)) = dec_nat (nat i)"
    using last_dec_nat_digit [of "nat i"] hd_dec_nat_digit [of "nat i"] dec_nat_nonempty [of "nat i"]
    by (intro py_strip_id) (auto simp: is_digit_plain)
  have h: "hd (dec_nat (nat i)) \<noteq> CHR ''-''" "hd (dec_nat (nat i)) \<noteq> CHR ''+''"
    using hd_dec_nat_digit [of "nat i"] by (auto simp: is_digit_plain)
  from False s h show ?thesis
    by (simp add: py_int_of_bytes_def dec_int_def digit_run_digits dec_nat_digits dec_nat_nonempty
        nat_of_digits_dec_nat)
qed

text \<open>So does the server, for every integer of 64 bits.\<close>

lemma string2ll_dec_int:
  assumes "- (2 ^ 63) \<le> i" and "i < 2 ^ 63"
  shows "string2ll (dec_int i) = Some i"
proof (cases "i < 0")
  case True
  define n where "n = nat (- i)"
  have n: "0 < n" "int n \<le> 2 ^ 63" "i = - int n" using True assms by (auto simp: n_def)
  have "n < 10 ^ Suc 18" using n(2) by simp
  then have len: "length (dec_nat n) \<le> 19" using length_dec_nat [of n 18] by simp
  have hd0: "hd (dec_nat n) \<noteq> CHR ''0''" using n(1) by (simp add: hd_dec_nat)
  show ?thesis
    using True len hd0 n hd_dec_nat_digit [of n]
    by (simp add: string2ll_def dec_int_def n_def [symmetric] dec_nat_nonempty dec_nat_digits
        nat_of_digits_dec_nat Let_def)
next
  case False
  define n where "n = nat i"
  have n: "int n < 2 ^ 63" "i = int n" using False assms by (auto simp: n_def)
  have "n < 10 ^ Suc 18" using n(1) by simp
  then have len: "length (dec_nat n) \<le> 19" using length_dec_nat [of n 18] by simp
  show ?thesis
  proof (cases "n = 0")
    case True
    then show ?thesis using False n
      by (simp add: string2ll_def dec_int_def n_def [symmetric] dec_nat.simps digit_char_def)
  next
    case nz: False
    then have hd0: "hd (dec_nat n) \<noteq> CHR ''0''" by (simp add: hd_dec_nat)
    then have "dec_nat n \<noteq> ''0''" by auto
    moreover have "hd (dec_nat n) \<noteq> CHR ''-''"
      using hd_dec_nat_digit [of n] by (auto simp: is_digit_plain)
    ultimately show ?thesis
      using False len hd0 n hd_dec_nat_digit [of n]
      by (simp add: string2ll_def dec_int_def n_def [symmetric] dec_nat_nonempty dec_nat_digits
          nat_of_digits_dec_nat Let_def)
  qed
qed

section \<open>Running computations\<close>

lemma io_bind_ret: "io_bind (ret x) f = f x"
  by (rule ext) (simp add: io_bind_def ret_def)

lemma io_bind_ret_right: "io_bind m (\<lambda>x. ret x) = m"
  by (rule ext) (simp add: io_bind_def ret_def split: prod.splits sum.splits)

section \<open>The commands on a server that answers\<close>

lemma uuid_length: "is_uuid4_str k \<Longrightarrow> length k = 36"
proof -
  assume "is_uuid4_str k"
  then have "length (map uuid_class k) = 36" by (simp add: is_uuid4_str_def)
  then show ?thesis by simp
qed

lemma uuid_not_store_key:
  assumes "is_uuid4_str k"
  shows "k \<noteq> ''Cache.store'' \<and> k \<noteq> ''Cache.store:inputs'' \<and> k \<noteq> ''Cache.store:outputs''
    \<and> ''Cache.store'' \<noteq> k \<and> ''Cache.store:inputs'' \<noteq> k \<and> ''Cache.store:outputs'' \<noteq> k"
  using uuid_length [OF assms] by auto

lemma string2ll_range: "string2ll b = Some n \<Longrightarrow> - (2 ^ 63) \<le> n \<and> n < 2 ^ 63"
  by (auto simp: string2ll_def Let_def split: if_splits)

lemma counter_of_range: "counter_of w k = Some n \<Longrightarrow> - (2 ^ 63) \<le> n \<and> n < 2 ^ 63"
  by (auto simp: counter_of_def dest: string2ll_range split: option.splits rval.splits)

lemma redis_incr_ok:
  assumes "online w" and "counter_of w k = Some c" and "c < 2 ^ 63 - 1"
  shows "redis_incr k w =
     (Inr (c + 1), w\<lparr>sent := sent w @ [INCR k], db := (db w)(k \<mapsto> RStr (dec_int (c + 1)))\<rparr>)"
  using assms
  by (auto simp: redis_incr_def io_bind_def send_def counter_of_def split: option.splits rval.splits)

lemma redis_set_ok:
  assumes "online w" and "encode v = Inr b"
  shows "redis_set k v w = (Inr (), w\<lparr>sent := sent w @ [SET k b], db := (db w)(k \<mapsto> RStr b)\<rparr>)"
  using assms by (simp add: redis_set_def connect_def io_bind_def send_def)

lemma redis_rpush_ok:
  assumes "online w" and "history_of w k = Some xs" and "encode v = Inr b"
  shows "redis_rpush k v w =
     (Inr (int (length xs) + 1),
      w\<lparr>sent := sent w @ [RPUSH k b], db := (db w)(k \<mapsto> RList (xs @ [b]))\<rparr>)"
  using assms
  by (auto simp: redis_rpush_def connect_def io_bind_def send_def history_of_def split: option.splits rval.splits)

lemma encode_scalar: "is_scalar v \<Longrightarrow> encode v = Inr (byte_form v)"
  by (cases v) simp_all

lemma list_range_all: "list_range xs 0 (- 1) = xs"
  by (cases "xs = []") (auto simp: list_range_def Let_def)

lemma redis_get_online:
  "online w \<Longrightarrow> redis_get k w =
     (case db w k of
        None \<Rightarrow> Inr None
      | Some (RStr b) \<Rightarrow> Inr (Some b)
      | Some (RList xs) \<Rightarrow> Inl (ResponseError WRONGTYPE), w\<lparr>sent := sent w @ [GET k]\<rparr>)"
  by (simp add: redis_get_def io_bind_def send_def split: option.splits rval.splits)

lemma redis_lrange_all:
  "online w \<Longrightarrow> history_of w k = Some xs \<Longrightarrow>
     redis_lrange k 0 (- 1) w = (Inr xs, w\<lparr>sent := sent w @ [LRANGE k 0 (- 1)]\<rparr>)"
  by (auto simp: redis_lrange_def io_bind_def send_def history_of_def list_range_all
      split: option.splits rval.splits)

section \<open>The write path\<close>

text \<open>One successful call of \<^verbatim>\<open>store\<close> on a Redis instance, step by step.\<close>

lemma store_step:
  assumes on: "online w" and inst: "isinstance_Redis (redis self)"
    and cnt: "counter_of w ''Cache.store'' = Some c" and lim: "c < 2 ^ 63 - 1"
    and ins: "history_of w ''Cache.store:inputs'' = Some ins"
    and outs: "history_of w ''Cache.store:outputs'' = Some outs"
    and enc: "encode data = Inr b"
    and uu: "is_uuid4_str (uuid_source w (uuid_drawn w))"
  shows "store self data w =
     (Inr (PStr (uuid_source w (uuid_drawn w))),
      w\<lparr>uuid_drawn := Suc (uuid_drawn w),
        sent := sent w @ [INCR ''Cache.store'', SET (uuid_source w (uuid_drawn w)) b,
                          RPUSH ''Cache.store:inputs'' (str_tuple (isprintable w) [data]),
                          RPUSH ''Cache.store:outputs'' (uuid_source w (uuid_drawn w))],
        db := (db w)(''Cache.store'' \<mapsto> RStr (dec_int (c + 1)),
                     uuid_source w (uuid_drawn w) \<mapsto> RStr b,
                     ''Cache.store:inputs'' \<mapsto> RList (ins @ [str_tuple (isprintable w) [data]]),
                     ''Cache.store:outputs'' \<mapsto> RList (outs @ [uuid_source w (uuid_drawn w)]))\<rparr>)"
proof -
  define k where "k = uuid_source w (uuid_drawn w)"
  note nk = uuid_not_store_key [OF uu, folded k_def]
  define w1 where "w1 = w\<lparr>sent := sent w @ [INCR ''Cache.store''],
      db := (db w)(''Cache.store'' \<mapsto> RStr (dec_int (c + 1)))\<rparr>"
  have 1: "redis_incr ''Cache.store'' w = (Inr (c + 1), w1)"
    using redis_incr_ok [OF on cnt lim] by (simp add: w1_def)
  define w2 where "w2 = w1\<lparr>uuid_drawn := Suc (uuid_drawn w)\<rparr>"
  have 2: "uuid4 w1 = (Inr k, w2)" by (simp add: uuid4_def w1_def w2_def k_def)
  have on2: "online w2" using on by (simp add: w2_def w1_def)
  define w3 where "w3 = w2\<lparr>sent := sent w2 @ [SET k b], db := (db w2)(k \<mapsto> RStr b)\<rparr>"
  have 3: "redis_set k data w2 = (Inr (), w3)"
    using redis_set_ok [OF on2 enc] by (simp add: w3_def)
  have on3: "online w3" using on2 by (simp add: w3_def)
  have h3: "history_of w3 ''Cache.store:inputs'' = Some ins"
    using ins nk by (simp add: history_of_def w3_def w2_def w1_def)
  define w4 where "w4 = w3\<lparr>sent := sent w3 @ [RPUSH ''Cache.store:inputs'' (str_tuple (isprintable w) [data])],
      db := (db w3)(''Cache.store:inputs'' \<mapsto> RList (ins @ [str_tuple (isprintable w) [data]]))\<rparr>"
  have 4: "redis_rpush ''Cache.store:inputs'' (PStr (str_tuple (isprintable w) [data])) w3 = (Inr (int (length ins) + 1), w4)"
    using redis_rpush_ok [OF on3 h3, of "PStr (str_tuple (isprintable w) [data])"] by (simp add: w4_def)
  have on4: "online w4" using on3 by (simp add: w4_def)
  have h4: "history_of w4 ''Cache.store:outputs'' = Some outs"
    using outs nk by (simp add: history_of_def w4_def w3_def w2_def w1_def)
  define w5 where "w5 = w4\<lparr>sent := sent w4 @ [RPUSH ''Cache.store:outputs'' k],
      db := (db w4)(''Cache.store:outputs'' \<mapsto> RList (outs @ [k]))\<rparr>"
  have 5: "redis_rpush ''Cache.store:outputs'' (PStr k) w4 = (Inr (int (length outs) + 1), w5)"
    using redis_rpush_ok [OF on4 h4, of "PStr k"] by (simp add: w5_def)
  have ip: "isprintable w3 = isprintable w" by (simp add: w3_def w2_def w1_def)
  have run: "store self data w = (Inr (PStr k), w5)"
    using inst 1 2 3 4 5 ip
    by (cases "redis self")
       (simp_all add: store_def Cache_store_def count_calls_def call_history_def store_method_def
         store_body_def bind_data_def io_bind_def ret_def on_handle_def Let_def isinstance_Redis_def
         str_of_args_def)
  have "w5 = w\<lparr>uuid_drawn := Suc (uuid_drawn w),
        sent := sent w @ [INCR ''Cache.store'', SET k b,
                          RPUSH ''Cache.store:inputs'' (str_tuple (isprintable w) [data]),
                          RPUSH ''Cache.store:outputs'' k],
        db := (db w)(''Cache.store'' \<mapsto> RStr (dec_int (c + 1)), k \<mapsto> RStr b,
                     ''Cache.store:inputs'' \<mapsto> RList (ins @ [str_tuple (isprintable w) [data]]),
                     ''Cache.store:outputs'' \<mapsto> RList (outs @ [k]))\<rparr>"
    by (simp add: w5_def w4_def w3_def w2_def w1_def)
  with run show ?thesis by (simp add: k_def)
qed

text \<open>Whenever \<^verbatim>\<open>store\<close> returns, the value is in the store under the identifier returned.\<close>

lemma store_body_returns:
  assumes "store_body self [data] [] w = (Inr r, w')"
  shows "r = PStr (uuid_source w (uuid_drawn w)) \<and> online w' \<and> redis self \<noteq> NoneHandle
    \<and> (\<exists>b. encode data = Inr b \<and> db w' (uuid_source w (uuid_drawn w)) = Some (RStr b))"
  using assms
  by (auto simp: store_body_def bind_data_def io_bind_def uuid4_def on_handle_def redis_set_def connect_def
      raise_def send_def ret_def split: sum.splits handle.splits if_splits)

lemma redis_rpush_returns:
  assumes "redis_rpush k v w = (Inr r, w')"
  shows "online w' = online w \<and> (\<forall>j. j \<noteq> k \<longrightarrow> db w' j = db w j)"
  using assms
  by (auto simp: redis_rpush_def connect_def io_bind_def raise_def send_def
      split: sum.splits if_splits option.splits rval.splits)

lemma redis_incr_frame:
  assumes "redis_incr k w = (r, w')"
  shows "uuid_source w' = uuid_source w \<and> uuid_drawn w' = uuid_drawn w"
  using assms
  by (auto simp: redis_incr_def io_bind_def send_def
      split: sum.splits if_splits option.splits rval.splits)

lemma store_returns:
  assumes ret: "store self data w = (Inr r, w')"
    and uu: "is_uuid4_str (uuid_source w (uuid_drawn w))"
  shows "\<exists>k b. r = PStr k \<and> is_uuid4_str k \<and> encode data = Inr b \<and> db w' k = Some (RStr b)
    \<and> online w' \<and> redis self \<noteq> NoneHandle"
proof (cases "isinstance_Redis (redis self)")
  case False
  then have "store_body self [data] [] w = (Inr r, w')"
    using ret
    by (simp add: store_def Cache_store_def count_calls_def call_history_def store_method_def
        io_bind_def ret_def split: prod.splits sum.splits)
  from store_body_returns [OF this] uu show ?thesis by auto
next
  case True
  obtain r1 w1 where 1: "redis_incr ''Cache.store'' w = (r1, w1)" by (cases "redis_incr ''Cache.store'' w")
  note f1 = redis_incr_frame [OF 1]
  obtain r2 w2 where 2: "store_body self [data] [] w1 = (r2, w2)" by (cases "store_body self [data] [] w1")
  obtain r3 w3 where 3: "redis_rpush ''Cache.store:inputs'' (PStr (str_tuple (isprintable w2) [data])) w2 = (r3, w3)"
    by (cases "redis_rpush ''Cache.store:inputs'' (PStr (str_tuple (isprintable w2) [data])) w2")
  from ret True 1 2 3 obtain x1 x3 x4 k0 where
    s: "r1 = Inr x1" "r2 = Inr k0" "r3 = Inr x3"
      "redis_rpush ''Cache.store:outputs'' k0 w3 = (Inr x4, w')" "r = k0"
    by (auto simp: store_def Cache_store_def count_calls_def call_history_def store_method_def
        io_bind_def ret_def Let_def str_of_args_def split: prod.splits sum.splits)
  define k where "k = uuid_source w1 (uuid_drawn w1)"
  from store_body_returns [OF 2 [unfolded s]] obtain b where
    b: "k0 = PStr k" "online w2" "redis self \<noteq> NoneHandle" "encode data = Inr b" "db w2 k = Some (RStr b)"
    by (auto simp: k_def)
  have ku: "is_uuid4_str k" using uu f1 by (simp add: k_def)
  note nk = uuid_not_store_key [OF ku]
  note f3 = redis_rpush_returns [OF 3 [unfolded s]]
  note f4 = redis_rpush_returns [OF s(4)]
  have "db w' k = Some (RStr b)" using f3 f4 nk b by simp
  moreover have "online w'" using f3 f4 b by simp
  ultimately show ?thesis using b s ku by auto
qed

lemma Cache_store_unwrapped:
  "\<not> isinstance_Redis (redis self) \<Longrightarrow> invoke Cache_store self args kwargs = store_body self args kwargs"
  by (simp add: Cache_store_def count_calls_def call_history_def store_method_def io_bind_ret
      io_bind_ret_right)

lemma store_body_effect:
  "store_body self args kwargs w = (r, w') \<Longrightarrow>
     online w' = online w \<and> stdout w' = stdout w \<and> uuid_source w' = uuid_source w
     \<and> (sent w' = sent w \<and> db w' = db w
        \<or> (\<exists>v b. bind_data args kwargs = Inr v \<and> encode v = Inr b
             \<and> sent w' = sent w @ [SET (uuid_source w (uuid_drawn w)) b]
             \<and> db w' = (db w)(uuid_source w (uuid_drawn w) \<mapsto> RStr b)))"
  by (auto simp: store_body_def io_bind_def uuid4_def on_handle_def redis_set_def connect_def raise_def
      send_def ret_def split: sum.splits handle.splits if_splits prod.splits)

text \<open>
  Claim C9. When the \<^verbatim>\<open>_redis\<close> attribute is not an instance of \<^verbatim>\<open>Redis\<close>, the
  decorated \<^verbatim>\<open>store\<close> is the undecorated method: same result, same world. The only
  command it can send is the SET of the method itself (no INCR, no RPUSH), and, the
  identifier being a UUID, the counter key and the two history keys hold what they held.
\<close>

theorem store_without_instance:
  assumes "\<not> isinstance_Redis (redis self)"
  shows "invoke Cache_store self args kwargs w = store_body self args kwargs w
    \<and> (\<forall>c \<in> set (drop (length (sent w)) (sent (snd (invoke Cache_store self args kwargs w)))).
         \<exists>k b. c = SET k b)
    \<and> (is_uuid4_str (uuid_source w (uuid_drawn w)) \<longrightarrow>
         (\<forall>k \<in> {''Cache.store'', ''Cache.store:inputs'', ''Cache.store:outputs''}.
            db (snd (invoke Cache_store self args kwargs w)) k = db w k))"
proof -
  obtain r w' where rw: "store_body self args kwargs w = (r, w')" by (cases "store_body self args kwargs w")
  note eff = store_body_effect [OF rw]
  have eq: "invoke Cache_store self args kwargs w = (r, w')"
    using assms rw by (simp add: Cache_store_unwrapped)
  have 2: "\<forall>c \<in> set (drop (length (sent w)) (sent w')). \<exists>k b. c = SET k b"
    using eff by auto
  have 3: "is_uuid4_str (uuid_source w (uuid_drawn w)) \<longrightarrow>
         (\<forall>k \<in> {''Cache.store'', ''Cache.store:inputs'', ''Cache.store:outputs''}. db w' k = db w k)"
    using eff uuid_not_store_key [of "uuid_source w (uuid_drawn w)"] by auto
  show ?thesis using eq rw 2 3 by simp
qed

theorem store_without_instance_witness:
  "fst (store \<lparr>redis = StandIn\<rparr> (PStr ''foo'') used_world) = Inr (PStr uuid_a)
   \<and> db (snd (store \<lparr>redis = StandIn\<rparr> (PStr ''foo'') used_world)) ''Cache.store'' = Some (RStr ''3'')
   \<and> fst (store \<lparr>redis = NoneHandle\<rparr> (PStr ''foo'') used_world) = Inl AttributeError"
  using store_without_instance [of "\<lparr>redis = StandIn\<rparr>" "[PStr ''foo'']" "[]" used_world]
    store_without_instance [of "\<lparr>redis = NoneHandle\<rparr>" "[PStr ''foo'']" "[]" used_world]
  by (simp add: store_def isinstance_Redis_def store_body_def bind_data_def io_bind_def uuid4_def
      on_handle_def redis_set_def connect_def send_def ret_def raise_def used_world_def sample_uuids_def
      is_uuid4_str_def uuid_class_def uuid_a_def)

section \<open>The read path\<close>

lemma Cache_get_online:
  assumes "online w" and "redis self \<noteq> NoneHandle"
  shows "Cache_get self k fn w =
     (case db w k of
        Some (RList xs) \<Rightarrow> (Inl (ResponseError WRONGTYPE), w\<lparr>sent := sent w @ [GET k]\<rparr>)
      | Some (RStr b) \<Rightarrow>
          (case fn of Some f \<Rightarrow> f (Some b) | None \<Rightarrow> ret (PBytes b)) (w\<lparr>sent := sent w @ [GET k]\<rparr>)
      | None \<Rightarrow> (case fn of Some f \<Rightarrow> f None | None \<Rightarrow> ret PNone) (w\<lparr>sent := sent w @ [GET k]\<rparr>))"
  using assms
  by (cases "redis self")
     (simp_all add: Cache_get_def on_handle_def io_bind_def redis_get_online reply_val_def
       split: option.splits rval.splits)

text \<open>
  Claim C4. On a handle that answers: without a conversion, \<^verbatim>\<open>get\<close> returns the
  stored bytes unchanged, and \<^verbatim>\<open>None\<close> when the key is absent; with a conversion
  \<open>f\<close>, it returns \<open>f\<close> applied to what was fetched, also when that is
  \<^verbatim>\<open>None\<close>, so that \<^verbatim>\<open>get_str\<close> and \<^verbatim>\<open>get_int\<close>, whose conversions do not handle
  \<^verbatim>\<open>None\<close>, fail on an absent key.
\<close>
theorem Cache_get_raw_or_converted:
  assumes "online w" and "redis self \<noteq> NoneHandle"
  shows "(\<forall>b. db w k = Some (RStr b) \<longrightarrow>
            Cache_get self k None w = (Inr (PBytes b), w\<lparr>sent := sent w @ [GET k]\<rparr>)
            \<and> Cache_get self k (Some f) w = f (Some b) (w\<lparr>sent := sent w @ [GET k]\<rparr>))
    \<and> (db w k = None \<longrightarrow>
            Cache_get self k None w = (Inr PNone, w\<lparr>sent := sent w @ [GET k]\<rparr>)
            \<and> Cache_get self k (Some f) w = f None (w\<lparr>sent := sent w @ [GET k]\<rparr>)
            \<and> fst (Cache_get_str self k w) = Inl AttributeError
            \<and> fst (Cache_get_int self k w) = Inl TypeError)"
  using assms
  by (simp add: Cache_get_online Cache_get_str_def Cache_get_int_def ret_def decode_utf8_def
      to_int_def raise_def)

theorem Cache_get_raw_or_converted_witness:
  "Cache_get a_cache ''greeting'' None used_world
     = (Inr (PBytes ''hello''), used_world\<lparr>sent := [GET ''greeting'']\<rparr>)
   \<and> Cache_get a_cache ''greeting'' (Some decode_utf8) used_world
     = (Inr (PStr ''hello''), used_world\<lparr>sent := [GET ''greeting'']\<rparr>)
   \<and> Cache_get a_cache ''nothing'' None used_world
     = (Inr PNone, used_world\<lparr>sent := [GET ''nothing'']\<rparr>)
   \<and> fst (Cache_get_int a_cache ''nothing'' used_world) = Inl TypeError"
  using Cache_get_raw_or_converted [of used_world a_cache "''greeting''" decode_utf8]
    Cache_get_raw_or_converted [of used_world a_cache "''nothing''" decode_utf8]
  by (simp add: used_world_def a_cache_def decode_utf8_def ret_def byte_in_def)

lemma digit_run_Some_digits: "digit_run s = Some ds \<Longrightarrow> s \<noteq> [] \<and> is_digit (hd s) \<and> (\<forall>c \<in> set s. is_digit c \<or> c = CHR ''_'')"
  by (induction s arbitrary: ds rule: digit_run.induct) (auto split: if_splits)

lemma set_py_strip: "set (py_strip s) \<subseteq> set s"
proof -
  have "set (py_strip s) \<subseteq> set (dropWhile py_isspace s)"
    unfolding py_strip_def using set_dropWhileD [of _ py_isspace "rev (dropWhile py_isspace s)"] by auto
  also have "\<dots> \<subseteq> set s" using set_dropWhileD by fastforce
  finally show ?thesis .
qed

lemma py_int_of_bytes_error: "py_int_of_bytes b = Inl e \<Longrightarrow> e = ValueError"
  by (auto simp: py_int_of_bytes_def Let_def split: option.splits)

lemma py_int_of_bytes_chars:
  assumes "py_int_of_bytes b = Inr n"
  shows "(\<exists>c \<in> set b. is_digit c)
    \<and> (\<forall>c \<in> set b. is_digit c \<or> py_isspace c \<or> c = CHR ''_'' \<or> c = CHR ''+'' \<or> c = CHR ''-'')"
proof -
  define s where "s = py_strip b"
  define body where "body = (if s \<noteq> [] \<and> (hd s = CHR ''-'' \<or> hd s = CHR ''+'') then tl s else s)"
  from assms have "digit_run body \<noteq> None"
    unfolding py_int_of_bytes_def Let_def s_def body_def by (auto split: option.splits)
  then obtain ds where ds: "digit_run body = Some ds" by blast
  note d = digit_run_Some_digits [OF ds]
  have sub: "set body \<subseteq> set s" by (cases s) (auto simp: body_def)
  have "hd body \<in> set body" using d by simp
  then have "hd body \<in> set b" using sub set_py_strip [of b] by (auto simp: s_def)
  then have 1: "\<exists>c \<in> set b. is_digit c" using d by blast
  have s_body: "\<forall>c \<in> set s. c \<in> set body \<or> c = CHR ''+'' \<or> c = CHR ''-''"
    by (cases s) (auto simp: body_def)
  have inner: "\<forall>c \<in> set s. is_digit c \<or> c = CHR ''_'' \<or> c = CHR ''+'' \<or> c = CHR ''-''"
    using s_body d by blast
  have split_b: "\<forall>c \<in> set b. c \<in> set s \<or> py_isspace c"
  proof
    fix c assume "c \<in> set b"
    then have "c \<in> set (takeWhile py_isspace b) \<or> c \<in> set (dropWhile py_isspace b)"
      by (metis Un_iff set_append takeWhile_dropWhile_id)
    moreover have "c \<in> set (takeWhile py_isspace b) \<Longrightarrow> py_isspace c"
      by (meson set_takeWhileD)
    moreover have "c \<in> set (dropWhile py_isspace b) \<Longrightarrow> c \<in> set s \<or> py_isspace c"
    proof -
      assume "c \<in> set (dropWhile py_isspace b)"
      then have "c \<in> set (rev (dropWhile py_isspace b))" by simp
      then have "c \<in> set (takeWhile py_isspace (rev (dropWhile py_isspace b)))
          \<or> c \<in> set (dropWhile py_isspace (rev (dropWhile py_isspace b)))"
        by (metis Un_iff set_append takeWhile_dropWhile_id)
      then show ?thesis
        by (auto simp: s_def py_strip_def dest: set_takeWhileD)
    qed
    ultimately show "c \<in> set s \<or> py_isspace c" by blast
  qed
  from inner split_b have 2: "\<forall>c \<in> set b. is_digit c \<or> py_isspace c \<or> c = CHR ''_'' \<or> c = CHR ''+'' \<or> c = CHR ''-''"
    by blast
  from 1 2 show ?thesis by blast
qed

text \<open>
  Claim C5. For a key that holds bytes \<open>b\<close>, \<^verbatim>\<open>get_int\<close> returns the integer that
  \<^verbatim>\<open>int(b)\<close> reads in base 10, and fails with \<^verbatim>\<open>ValueError\<close> (the specification's
  FormatError) when \<^verbatim>\<open>int(b)\<close> cannot read \<open>b\<close>. The decimal text of every integer
  is read back as that integer; bytes without a digit, or with a character that is not a
  digit, a blank, a sign or an underscore, are refused.
\<close>
theorem Cache_get_int_parses:
  assumes "online w" and "redis self \<noteq> NoneHandle" and "db w k = Some (RStr b)"
  shows "fst (Cache_get_int self k w) =
           (case py_int_of_bytes b of Inl e \<Rightarrow> Inl ValueError | Inr n \<Rightarrow> Inr (PInt n))
    \<and> (\<forall>n. b = dec_int n \<longrightarrow> fst (Cache_get_int self k w) = Inr (PInt n))
    \<and> ((\<forall>c \<in> set b. \<not> is_digit c)
         \<or> (\<exists>c \<in> set b. \<not> (is_digit c \<or> py_isspace c \<or> c = CHR ''_'' \<or> c = CHR ''+'' \<or> c = CHR ''-''))
       \<longrightarrow> fst (Cache_get_int self k w) = Inl ValueError)"
proof -
  have run: "fst (Cache_get_int self k w) =
           (case py_int_of_bytes b of Inl e \<Rightarrow> Inl ValueError | Inr n \<Rightarrow> Inr (PInt n))"
    using assms py_int_of_bytes_error [of b]
    by (auto simp: Cache_get_int_def Cache_get_online to_int_def raise_def ret_def split: sum.splits)
  have bad: "(\<forall>c \<in> set b. \<not> is_digit c)
         \<or> (\<exists>c \<in> set b. \<not> (is_digit c \<or> py_isspace c \<or> c = CHR ''_'' \<or> c = CHR ''+'' \<or> c = CHR ''-''))
       \<Longrightarrow> \<exists>e. py_int_of_bytes b = Inl e"
    using py_int_of_bytes_chars [of b] by (cases "py_int_of_bytes b") auto
  have good: "\<forall>n. b = dec_int n \<longrightarrow> fst (Cache_get_int self k w) = Inr (PInt n)"
    using run by (simp add: py_int_of_dec_int)
  have fails: "(\<forall>c \<in> set b. \<not> is_digit c)
         \<or> (\<exists>c \<in> set b. \<not> (is_digit c \<or> py_isspace c \<or> c = CHR ''_'' \<or> c = CHR ''+'' \<or> c = CHR ''-''))
       \<longrightarrow> fst (Cache_get_int self k w) = Inl ValueError"
  proof
    assume "(\<forall>c \<in> set b. \<not> is_digit c)
         \<or> (\<exists>c \<in> set b. \<not> (is_digit c \<or> py_isspace c \<or> c = CHR ''_'' \<or> c = CHR ''+'' \<or> c = CHR ''-''))"
    from bad [OF this] obtain e where "py_int_of_bytes b = Inl e" by blast
    with run show "fst (Cache_get_int self k w) = Inl ValueError" by simp
  qed
  from run good fails show ?thesis by blast
qed

theorem Cache_get_int_parses_witness:
  "fst (Cache_get_int a_cache ''answer'' used_world) = Inr (PInt 42)
   \<and> fst (Cache_get_int a_cache ''greeting'' used_world) = Inl ValueError
   \<and> fst (Cache_get_int a_cache ''Cache.store'' used_world) = Inr (PInt 3)"
  using Cache_get_int_parses [of used_world a_cache "''answer''" "'' +4_2 ''"]
    Cache_get_int_parses [of used_world a_cache "''greeting''" "''hello''"]
    Cache_get_int_parses [of used_world a_cache "''Cache.store''" "''3''"]
  by (simp add: used_world_def a_cache_def py_int_of_bytes_def py_strip_def py_isspace_def
      is_digit_def nat_of_digits_def digit_val_def)

section \<open>Initialisation\<close>

lemma Cache_init_online:
  "online w \<Longrightarrow> Cache_init w =
      (Inr \<lparr>redis = RedisInst\<rparr>, w\<lparr>sent := sent w @ [FLUSHDB True], db := Map.empty\<rparr>)"
  by (simp add: Cache_init_def redis_flushdb_def io_bind_def send_def ret_def)

text \<open>
  Claim C8, as stated: the flush is sent in synchronous mode. It is not: \<^verbatim>\<open>flushdb(True)\<close>
  passes \<^verbatim>\<open>asynchronous=True\<close>, so the command sent is \<^verbatim>\<open>FLUSHDB ASYNC\<close>.
\<close>

theorem Cache_init_flush_mode_counterexample:
  "\<not> (sent (snd (Cache_init used_world)) = sent used_world @ [FLUSHDB False])"
  by (simp add: Cache_init_def redis_flushdb_def io_bind_def send_def ret_def used_world_def)

text \<open>
  Claim C8, amended. On a server that answers, initialisation returns a cache whose handle
  is a Redis instance, sends one flush command, in asynchronous mode, and leaves every key
  absent: every call counter reads 0 and every history sequence is empty.
\<close>

theorem Cache_init_clears:
  assumes "online w"
  shows "Cache_init w =
      (Inr \<lparr>redis = RedisInst\<rparr>, w\<lparr>sent := sent w @ [FLUSHDB True], db := Map.empty\<rparr>)
    \<and> (\<forall>k. db (snd (Cache_init w)) k = None)
    \<and> (\<forall>k. counter_of (snd (Cache_init w)) k = Some 0
           \<and> history_of (snd (Cache_init w)) k = Some [])"
  using assms
  by (simp add: Cache_init_def redis_flushdb_def io_bind_def send_def ret_def counter_of_def
      history_of_def)

theorem Cache_init_clears_witness:
  "fst (Cache_init used_world) = Inr \<lparr>redis = RedisInst\<rparr>
   \<and> sent (snd (Cache_init used_world)) = [FLUSHDB True]
   \<and> db (snd (Cache_init used_world)) ''greeting'' = None
   \<and> counter_of (snd (Cache_init used_world)) ''Cache.store'' = Some 0"
proof -
  have on: "online used_world" and s: "sent used_world = []"
    by (simp_all add: used_world_def)
  from Cache_init_clears [OF on] s show ?thesis by (simp add: counter_of_def)
qed

section \<open>Replay\<close>

text \<open>What \<^verbatim>\<open>replay\<close> reads as the count: decided by the counter key alone.\<close>

lemma read_count_online:
  "online w \<Longrightarrow> read_count name w =
     (case db w name of
        None \<Rightarrow> (Inr 0, w\<lparr>sent := sent w @ [EXISTS name]\<rparr>)
      | Some (RList xs) \<Rightarrow>
          (Inl (ResponseError WRONGTYPE), w\<lparr>sent := sent w @ [EXISTS name, GET name]\<rparr>)
      | Some (RStr b) \<Rightarrow>
          (case py_int_of_bytes b of Inl e \<Rightarrow> Inl e | Inr n \<Rightarrow> Inr n,
           w\<lparr>sent := sent w @ [EXISTS name, GET name]\<rparr>))"
  by (simp add: read_count_def redis_exists_def io_bind_def send_def redis_get_def raise_def ret_def
      split: option.splits rval.splits sum.splits)

lemma print_pairs_valid:
  "list_all valid_utf8 (map fst ps) \<Longrightarrow>
     print_pairs name ps w =
       (Inr (), w\<lparr>stdout := stdout w @ map (\<lambda>(i, out). history_line name i out) ps\<rparr>)"
proof (induction ps arbitrary: w)
  case Nil
  then show ?case by (simp add: ret_def)
next
  case (Cons p ps)
  obtain i out where p: "p = (i, out)" by (cases p)
  from Cons.prems p have v: "valid_utf8 i" "list_all valid_utf8 (map fst ps)" by simp_all
  show ?case
    using v p by (simp add: io_bind_def print_def Cons.IH)
qed

text \<open>Printing only appends to standard output and touches nothing else.\<close>

lemma print_pairs_appends:
  "\<exists>ls. snd (print_pairs name ps w) = w\<lparr>stdout := stdout w @ ls\<rparr>"
proof (induction ps arbitrary: w)
  case Nil
  show ?case by (simp add: ret_def) (rule exI [of _ "[]"], simp)
next
  case (Cons p ps)
  obtain i out where p: "p = (i, out)" by (cases p)
  show ?case
  proof (cases "valid_utf8 i")
    case True
    define w1 where "w1 = w\<lparr>stdout := stdout w @ [history_line name i out]\<rparr>"
    from Cons.IH [of w1] obtain ls where ls: "snd (print_pairs name ps w1) = w1\<lparr>stdout := stdout w1 @ ls\<rparr>"
      by blast
    have "snd (print_pairs name (p # ps) w) = w\<lparr>stdout := stdout w @ (history_line name i out # ls)\<rparr>"
      using True p ls by (simp add: io_bind_def print_def w1_def)
    then show ?thesis by blast
  next
    case False
    from False p show ?thesis by (simp add: raise_def) (rule exI [of _ "[]"], simp)
  qed
qed

text \<open>The first line \<^verbatim>\<open>replay\<close> prints, when the counter can be read, is the header.\<close>

lemma replay_first_line:
  assumes "online w" and "isinstance_Redis (redis self)"
  shows "take 1 (printed (replay (BoundMethod self name)) w) =
     (case fst (read_count name w) of Inl e \<Rightarrow> [] | Inr c \<Rightarrow> [header_line name c])"
proof (cases "fst (read_count name w)")
  case (Inl e)
  define w1 where "w1 = snd (read_count name w)"
  have rc: "read_count name w = (Inl e, w1)" using Inl by (simp add: w1_def prod_eq_iff)
  have "stdout w1 = stdout w"
    using assms(1) by (simp add: w1_def read_count_online split: option.splits rval.splits)
  then show ?thesis
    using assms(2) Inl rc by (simp add: replay_def printed_def io_bind_def Let_def)
next
  case (Inr c)
  define w1 where "w1 = snd (read_count name w)"
  have rc: "read_count name w = (Inr c, w1)" using Inr by (simp add: w1_def prod_eq_iff)
  have w1: "stdout w1 = stdout w" "online w1"
    using assms(1) by (simp_all add: w1_def read_count_online split: option.splits rval.splits)
  define w2 where "w2 = w1\<lparr>stdout := stdout w @ [header_line name c]\<rparr>"
  define rest where "rest =
     io_bind (redis_lrange (name @ '':inputs'') 0 (- 1)) (\<lambda>fxn_inputs.
     io_bind (redis_lrange (name @ '':outputs'') 0 (- 1)) (\<lambda>fxn_outputs.
       print_pairs name (zip fxn_inputs fxn_outputs)))"
  have run: "replay (BoundMethod self name) w = rest w2"
    using assms rc w1 by (simp add: replay_def io_bind_def Let_def print_def w2_def rest_def)
  have "\<exists>ls. stdout (snd (rest w2)) = stdout w2 @ ls"
  proof -
    have lr: "\<And>k u. \<exists>r. redis_lrange k 0 (- 1) u = (r, u\<lparr>sent := sent u @ [LRANGE k 0 (- 1)]\<rparr>) \<or> redis_lrange k 0 (- 1) u = (r, u)"
      by (auto simp: redis_lrange_def io_bind_def send_def split: option.splits rval.splits)
    obtain r1 u1 where 1: "redis_lrange (name @ '':inputs'') 0 (- 1) w2 = (r1, u1)" "stdout u1 = stdout w2"
      using lr [of "name @ '':inputs''" w2] by auto
    show ?thesis
    proof (cases r1)
      case (Inl e)
      then show ?thesis using 1 by (simp add: rest_def io_bind_def)
    next
      case ins: (Inr ins)
      obtain r2 u2 where 2: "redis_lrange (name @ '':outputs'') 0 (- 1) u1 = (r2, u2)" "stdout u2 = stdout u1"
        using lr [of "name @ '':outputs''" u1] by auto
      show ?thesis
      proof (cases r2)
        case (Inl e)
        then show ?thesis using 1 2 ins by (simp add: rest_def io_bind_def)
      next
        case (Inr outs)
        obtain ls where "snd (print_pairs name (zip ins outs) u2) = u2\<lparr>stdout := stdout u2 @ ls\<rparr>"
          using print_pairs_appends by blast
        then show ?thesis using 1 2 ins Inr by (simp add: rest_def io_bind_def)
      qed
    qed
  qed
  then obtain ls where "stdout (snd (rest w2)) = stdout w @ header_line name c # ls"
    by (auto simp: w2_def)
  then show ?thesis using run Inr by (simp add: printed_def)
qed

text \<open>
  Claim C6. Given \<^verbatim>\<open>None\<close>, an object without \<^verbatim>\<open>__self__\<close>, or a bound method of an
  object whose \<^verbatim>\<open>_redis\<close> is not an instance of \<^verbatim>\<open>Redis\<close>, \<^verbatim>\<open>replay\<close> returns at once:
  no error, nothing printed, nothing sent, the world unchanged.
\<close>

theorem replay_noop:
  assumes "fn = PyNone \<or> fn = NoSelf
    \<or> (\<exists>self name. fn = BoundMethod self name \<and> \<not> isinstance_Redis (redis self))"
  shows "replay fn w = (Inr (), w)"
  using assms by (auto simp: replay_def ret_def)

theorem replay_noop_witness:
  "replay PyNone used_world = (Inr (), used_world)
   \<and> replay NoSelf used_world = (Inr (), used_world)
   \<and> replay (BoundMethod \<lparr>redis = NoneHandle\<rparr> ''Cache.store'') used_world = (Inr (), used_world)
   \<and> replay (BoundMethod \<lparr>redis = StandIn\<rparr> ''Cache.store'') used_world = (Inr (), used_world)"
  using replay_noop [of PyNone used_world] replay_noop [of NoSelf used_world]
    replay_noop [of "BoundMethod \<lparr>redis = NoneHandle\<rparr> ''Cache.store''" used_world]
    replay_noop [of "BoundMethod \<lparr>redis = StandIn\<rparr> ''Cache.store''" used_world]
  by (simp add: isinstance_Redis_def)

text \<open>The whole run of \<^verbatim>\<open>replay\<close> on a readable counter and readable histories.\<close>

lemma replay_run:
  assumes "online w" and "isinstance_Redis (redis self)"
    and "db w name = None \<and> c = 0 \<or> (\<exists>b. db w name = Some (RStr b) \<and> py_int_of_bytes b = Inr c)"
    and "history_of w (name @ '':inputs'') = Some ins"
    and "history_of w (name @ '':outputs'') = Some outs"
    and "list_all valid_utf8 (take (length outs) ins)"
  shows "replay (BoundMethod self name) w =
     (Inr (),
      w\<lparr>sent := sent w @ (if db w name = None then [EXISTS name] else [EXISTS name, GET name])
                 @ [LRANGE (name @ '':inputs'') 0 (- 1), LRANGE (name @ '':outputs'') 0 (- 1)],
        stdout := stdout w @ header_line name c
                  # map (\<lambda>(i, out). history_line name i out) (zip ins outs)\<rparr>)"
proof -
  define cmds where "cmds = (if db w name = None then [EXISTS name] else [EXISTS name, GET name])"
  define w1 where "w1 = w\<lparr>sent := sent w @ cmds\<rparr>"
  have rc: "read_count name w = (Inr c, w1)"
    using assms(1,3) by (auto simp: w1_def cmds_def read_count_online)
  define w2 where "w2 = w1\<lparr>stdout := stdout w @ [header_line name c]\<rparr>"
  have h2: "online w2" "history_of w2 (name @ '':inputs'') = Some ins"
    "history_of w2 (name @ '':outputs'') = Some outs"
    using assms(1,4,5) by (simp_all add: w2_def w1_def history_of_def)
  define w3 where "w3 = w2\<lparr>sent := sent w2 @ [LRANGE (name @ '':inputs'') 0 (- 1)]\<rparr>"
  have l1: "redis_lrange (name @ '':inputs'') 0 (- 1) w2 = (Inr ins, w3)"
    using h2 by (simp add: redis_lrange_all w3_def)
  have h3: "online w3" "history_of w3 (name @ '':outputs'') = Some outs"
    using h2 by (simp_all add: w3_def history_of_def)
  define w4 where "w4 = w3\<lparr>sent := sent w3 @ [LRANGE (name @ '':outputs'') 0 (- 1)]\<rparr>"
  have l2: "redis_lrange (name @ '':outputs'') 0 (- 1) w3 = (Inr outs, w4)"
    using h3 by (simp add: redis_lrange_all w4_def)
  have valid: "list_all valid_utf8 (map fst (zip ins outs))"
  proof -
    have "set (take (min (length ins) (length outs)) ins) \<subseteq> set (take (length outs) ins)"
      by (rule set_take_subset_set_take) simp
    with assms(6) show ?thesis by (auto simp: map_fst_zip_take list_all_iff)
  qed
  have w1s: "stdout w1 = stdout w" by (simp add: w1_def)
  have run: "replay (BoundMethod self name) w =
      (Inr (), w4\<lparr>stdout := stdout w4 @ map (\<lambda>(i, out). history_line name i out) (zip ins outs)\<rparr>)"
    using assms(2) rc l1 l2
    by (simp add: replay_def Let_def io_bind_def print_def w2_def [symmetric] w1s
        print_pairs_valid [OF valid])
  show ?thesis
    unfolding run by (simp add: w4_def w3_def w2_def w1_def cmds_def)
qed

text \<open>
  Claim C7. For a bound method of an object with a Redis instance, when the counter key is
  absent (count 0) or holds text that \<^verbatim>\<open>int\<close> reads as \<open>c\<close>, the input history has
  \<open>m\<close> entries and the output history \<open>n\<close>, and the inputs that get paired are valid
  UTF-8: \<^verbatim>\<open>replay\<close> raises nothing and prints the header line with the count, then one
  line for each of the first \<open>min m n\<close> pairs, input \<open>i\<close> with output \<open>i\<close>, the output
  shown as Python shows bytes. With nothing recorded it prints the header with count 0 only.
\<close>
theorem replay_prints_history:
  assumes "online w" and "isinstance_Redis (redis self)"
    and "db w name = None \<and> c = 0 \<or> (\<exists>b. db w name = Some (RStr b) \<and> py_int_of_bytes b = Inr c)"
    and "history_of w (name @ '':inputs'') = Some ins"
    and "history_of w (name @ '':outputs'') = Some outs"
    and "list_all valid_utf8 (take (length outs) ins)"
  shows "fst (replay (BoundMethod self name) w) = Inr ()
    \<and> printed (replay (BoundMethod self name)) w =
        (name @ '' was called '' @ dec_int c @ '' times:'')
        # map (\<lambda>(i, out). name @ ''(*'' @ i @ '') -> '' @ repr_bytes out) (zip ins outs)
    \<and> length (printed (replay (BoundMethod self name)) w) = 1 + min (length ins) (length outs)
    \<and> db (snd (replay (BoundMethod self name) w)) = db w"
proof -
  have hl: "(\<lambda>(i, out). history_line name i out)
      = (\<lambda>(i, out). name @ ''(*'' @ i @ '') -> '' @ repr_bytes out)"
    by (simp add: history_line_def)
  show ?thesis
    by (simp add: replay_run [OF assms] printed_def header_line_def hl)
qed

theorem replay_prints_history_witness:
  "printed (replay (BoundMethod a_cache ''Cache.store'')) used_world =
     [''Cache.store was called 3 times:'',
      ''Cache.store(*(1,)) -> b'' @ [CHR 0x27] @ uuid_a @ [CHR 0x27]]
   \<and> fst (replay (BoundMethod a_cache ''Cache.store'') used_world) = Inr ()
   \<and> printed (replay (BoundMethod a_cache ''Cache.store'')) fresh_world =
     [''Cache.store was called 0 times:'']"
  using replay_prints_history [of used_world a_cache "''Cache.store''" 3 "[''(1,)'', ''(2,)'']" "[uuid_a]"]
    replay_prints_history [of fresh_world a_cache "''Cache.store''" 0 "[]" "[]"]
  by (simp add: used_world_def fresh_world_def a_cache_def isinstance_Redis_def history_of_def
      py_int_of_bytes_def py_strip_def py_isspace_def is_digit_def nat_of_digits_def digit_val_def
      byte_in_def dec_int_def dec_nat.simps digit_char_def repr_bytes_def py_quote_def repr_byte_def
      uuid_a_def)

lemma replay_header_value:
  assumes "online w" and "isinstance_Redis (redis self)"
    and "db w name = Some (RStr b)" and "py_int_of_bytes b = Inr c"
  shows "take 1 (printed (replay (BoundMethod self name)) w) = [header_line name c]"
proof -
  have "fst (read_count name w) = Inr c"
    using assms(1,3,4) by (simp add: read_count_online)
  then show ?thesis
    using replay_first_line [OF assms(1,2), of name] by simp
qed

text \<open>
  Claim C10. The count in the header line is read from the counter key alone: two stores
  that agree on that key give the same header whatever their histories hold; an absent
  key gives the count 0; a key that holds text which \<^verbatim>\<open>int\<close> reads as \<open>c\<close> gives
  the count \<open>c\<close>. So the count can differ from the number of history lines printed:
  there is a store where it does.
\<close>

theorem replay_count_from_counter_key:
  "(\<forall>w w'. online w \<and> online w' \<and> db w name = db w' name \<longrightarrow>
       take 1 (printed (replay (BoundMethod a_cache name)) w)
       = take 1 (printed (replay (BoundMethod a_cache name)) w'))
   \<and> (\<forall>w. online w \<and> db w name = None \<longrightarrow>
       take 1 (printed (replay (BoundMethod a_cache name)) w) = [name @ '' was called 0 times:''])
   \<and> (\<forall>w b c. online w \<and> db w name = Some (RStr b) \<and> py_int_of_bytes b = Inr c \<longrightarrow>
       take 1 (printed (replay (BoundMethod a_cache name)) w)
       = [name @ '' was called '' @ dec_int c @ '' times:''])
   \<and> (\<exists>w c ls. online w
       \<and> printed (replay (BoundMethod a_cache ''Cache.store'')) w
           = (''Cache.store was called '' @ dec_int c @ '' times:'') # ls
       \<and> c \<noteq> int (length ls))"
proof -
  have inst: "isinstance_Redis (redis a_cache)" by (simp add: a_cache_def isinstance_Redis_def)
  have same: "fst (read_count name w) = fst (read_count name w')"
    if "online w" "online w'" "db w name = db w' name" for w w'
    using that by (simp add: read_count_online split: option.splits rval.splits)
  have 1: "\<forall>w w'. online w \<and> online w' \<and> db w name = db w' name \<longrightarrow>
       take 1 (printed (replay (BoundMethod a_cache name)) w)
       = take 1 (printed (replay (BoundMethod a_cache name)) w')"
  proof (intro allI impI)
    fix w w' :: world assume a: "online w \<and> online w' \<and> db w name = db w' name"
    then have "fst (read_count name w) = fst (read_count name w')" using same by blast
    then show "take 1 (printed (replay (BoundMethod a_cache name)) w)
       = take 1 (printed (replay (BoundMethod a_cache name)) w')"
      using a replay_first_line [OF _ inst, of w name] replay_first_line [OF _ inst, of w' name]
      by presburger
  qed
  have 2: "\<forall>w. online w \<and> db w name = None \<longrightarrow>
       take 1 (printed (replay (BoundMethod a_cache name)) w) = [name @ '' was called 0 times:'']"
  proof (intro allI impI)
    fix w :: world assume a: "online w \<and> db w name = None"
    then have "fst (read_count name w) = Inr 0" by (simp add: read_count_online)
    then show "take 1 (printed (replay (BoundMethod a_cache name)) w)
        = [name @ '' was called 0 times:'']"
      using a replay_first_line [OF _ inst, of w name]
      by (simp add: header_line_def dec_int_def dec_nat.simps digit_char_def)
  qed
  have h: "online used_world"
    "db used_world ''Cache.store'' = None \<and> (3::int) = 0
      \<or> (\<exists>b. db used_world ''Cache.store'' = Some (RStr b) \<and> py_int_of_bytes b = Inr 3)"
    "history_of used_world (''Cache.store'' @ '':inputs'') = Some [''(1,)'', ''(2,)'']"
    "history_of used_world (''Cache.store'' @ '':outputs'') = Some [uuid_a]"
    "list_all valid_utf8 (take (length [uuid_a]) [''(1,)'', ''(2,)''])"
    by (simp_all add: used_world_def history_of_def py_int_of_bytes_def py_strip_def py_isspace_def
        is_digit_def nat_of_digits_def digit_val_def byte_in_def)
  have "printed (replay (BoundMethod a_cache ''Cache.store'')) used_world
      = (''Cache.store was called '' @ dec_int 3 @ '' times:'')
        # [''Cache.store(*'' @ ''(1,)'' @ '') -> '' @ repr_bytes uuid_a]"
    by (simp add: replay_run [OF h(1) inst h(2-5)] printed_def header_line_def history_line_def)
  with h(1) have 3: "\<exists>w c ls. online w
       \<and> printed (replay (BoundMethod a_cache ''Cache.store'')) w
           = (''Cache.store was called '' @ dec_int c @ '' times:'') # ls
       \<and> c \<noteq> int (length ls)"
    by (intro exI [of _ used_world] exI [of _ 3]
        exI [of _ "[''Cache.store(*'' @ ''(1,)'' @ '') -> '' @ repr_bytes uuid_a]"]) simp
  have 4: "\<forall>w b c. online w \<and> db w name = Some (RStr b) \<and> py_int_of_bytes b = Inr c \<longrightarrow>
       take 1 (printed (replay (BoundMethod a_cache name)) w)
       = [name @ '' was called '' @ dec_int c @ '' times:'']"
  proof (intro allI impI)
    fix w :: world and b c
    assume a: "online w \<and> db w name = Some (RStr b) \<and> py_int_of_bytes b = Inr c"
    then show "take 1 (printed (replay (BoundMethod a_cache name)) w)
        = [name @ '' was called '' @ dec_int c @ '' times:'']"
      using replay_header_value [OF _ inst, of w name b c] by (simp add: header_line_def)
  qed
  from 1 2 4 3 show ?thesis by (intro conjI)
qed

theorem replay_count_from_counter_key_witness:
  "take 1 (printed (replay (BoundMethod a_cache ''Cache.store'')) fresh_world)
     = [''Cache.store was called 0 times:'']
   \<and> take 1 (printed (replay (BoundMethod a_cache ''Cache.store'')) used_world)
     = take 1 (printed (replay (BoundMethod a_cache ''Cache.store''))
         (used_world\<lparr>db := [''Cache.store'' \<mapsto> RStr ''3'']\<rparr>))
   \<and> take 1 (printed (replay (BoundMethod a_cache ''Cache.store'')) used_world)
     = [''Cache.store was called 3 times:'']"
proof -
  note t = replay_count_from_counter_key [of "''Cache.store''"]
  note t1 = t [THEN conjunct1, rule_format]
  note t2 = t [THEN conjunct2, THEN conjunct1, rule_format]
  note t3 = t [THEN conjunct2, THEN conjunct2, THEN conjunct1, rule_format]
  have a: "online fresh_world \<and> db fresh_world ''Cache.store'' = None"
    by (simp add: fresh_world_def)
  have b: "online used_world \<and> online (used_world\<lparr>db := [''Cache.store'' \<mapsto> RStr ''3'']\<rparr>)
      \<and> db used_world ''Cache.store''
        = db (used_world\<lparr>db := [''Cache.store'' \<mapsto> RStr ''3'']\<rparr>) ''Cache.store''"
    by (simp add: used_world_def)
  have c: "online used_world \<and> db used_world ''Cache.store'' = Some (RStr ''3'')
      \<and> py_int_of_bytes ''3'' = Inr 3"
    by (simp add: used_world_def py_int_of_bytes_def py_strip_def py_isspace_def is_digit_def
        nat_of_digits_def digit_val_def)
  have d: "dec_int 3 = ''3''" by (simp add: dec_int_def dec_nat.simps digit_char_def)
  from t1 [OF b] t2 [OF a] t3 [OF c] show ?thesis by (simp add: d)
qed

section \<open>Claims on the write path\<close>

lemma sample_uuids_ok: "\<forall>i. is_uuid4_str (sample_uuids i)"
  by (simp add: sample_uuids_def is_uuid4_str_def uuid_class_def uuid_a_def uuid_b_def)

lemma valid_utf8_ascii: "\<forall>c \<in> set s. (of_char c :: nat) < 128 \<Longrightarrow> valid_utf8 s"
  by (induction s) (auto simp: byte_in_def)

lemma is_digit_ascii: "is_digit c \<Longrightarrow> (of_char c :: nat) < 128"
  by (simp add: is_digit_def)

lemma valid_utf8_dec_int: "valid_utf8 (dec_int n)"
proof (rule valid_utf8_ascii)
  have "\<forall>c \<in> set (dec_nat m). (of_char c :: nat) < 128" for m
    using dec_nat_digits [of m] by (auto simp: list_all_iff dest: is_digit_ascii)
  then show "\<forall>c \<in> set (dec_int n). (of_char c :: nat) < 128"
    by (auto simp: dec_int_def)
qed

text \<open>The display form of a text with a character that is not printable: a no-break space.\<close>

lemma str_tuple_no_break_space:
  "str_tuple sample_printable [PStr [CHR 0xC2, CHR 0xA0]]
     = ''('' @ [CHR 0x27, CHR 0x5C] @ ''xa0'' @ [CHR 0x27] @ '',)''"
  by (simp add: str_tuple_def repr_str_def py_quote_def repr_char_def byte_in_def tail_bits_def
      sample_printable_def hex_fixed_def hex_digit_def upt_rec)

text \<open>
  Claim C2, as stated: the input history is appended before the value is set. It is not:
  \<^verbatim>\<open>call_history\<close> calls the method first and records both histories afterwards, so
  the SET is sent before the RPUSH to the input history.
\<close>

theorem store_order_counterexample:
  "\<not> (sent (snd (store a_cache (PStr ''foo'') fresh_world)) =
        [INCR ''Cache.store'',
         RPUSH ''Cache.store:inputs'' (str_tuple (isprintable fresh_world) [PStr ''foo'']),
         SET uuid_a ''foo'',
         RPUSH ''Cache.store:outputs'' uuid_a])"
  by (simp add: store_def Cache_store_def count_calls_def call_history_def store_method_def
      store_body_def bind_data_def io_bind_def ret_def on_handle_def Let_def isinstance_Redis_def
      a_cache_def fresh_world_def redis_incr_def redis_set_def redis_rpush_def connect_def send_def uuid4_def
      str_of_args_def
      sample_uuids_def)

text \<open>
  Claim C2, amended. A call of \<^verbatim>\<open>store\<close> on a Redis instance, with a readable counter
  below the 64-bit limit, readable histories and a value the client can encode, sends
  exactly four commands in this order: the increment of the counter \<^verbatim>\<open>Cache.store\<close>, the
  SET of the value under the fresh identifier, the append of \<^verbatim>\<open>str(args)\<close> to the input
  history, the append of the identifier to the output history; it returns the identifier.
\<close>

theorem store_effects_in_order:
  assumes "online w" and "isinstance_Redis (redis self)"
    and "counter_of w ''Cache.store'' = Some c" and "c < 2 ^ 63 - 1"
    and "history_of w ''Cache.store:inputs'' = Some ins"
    and "history_of w ''Cache.store:outputs'' = Some outs"
    and "encode data = Inr b"
    and "is_uuid4_str (uuid_source w (uuid_drawn w))"
  shows "fst (store self data w) = Inr (PStr (uuid_source w (uuid_drawn w)))
    \<and> sent (snd (store self data w)) =
        sent w @ [INCR ''Cache.store'',
                  SET (uuid_source w (uuid_drawn w)) b,
                  RPUSH ''Cache.store:inputs'' (str_tuple (isprintable w) [data]),
                  RPUSH ''Cache.store:outputs'' (uuid_source w (uuid_drawn w))]
    \<and> counter_of (snd (store self data w)) ''Cache.store'' = Some (c + 1)
    \<and> db (snd (store self data w)) (uuid_source w (uuid_drawn w)) = Some (RStr b)
    \<and> history_of (snd (store self data w)) ''Cache.store:inputs'' = Some (ins @ [str_tuple (isprintable w) [data]])
    \<and> history_of (snd (store self data w)) ''Cache.store:outputs''
        = Some (outs @ [uuid_source w (uuid_drawn w)])"
proof -
  note nk = uuid_not_store_key [OF assms(8)]
  from counter_of_range [OF assms(3)] assms(4)
  have "string2ll (dec_int (c + 1)) = Some (c + 1)"
    by (intro string2ll_dec_int) auto
  then show ?thesis
    using nk by (simp add: store_step [OF assms] counter_of_def history_of_def)
qed

theorem store_effects_in_order_witness:
  "(fst (store a_cache (PInt 123) used_world) = Inr (PStr uuid_a)
    \<and> sent (snd (store a_cache (PInt 123) used_world)) =
        [INCR ''Cache.store'', SET uuid_a ''123'', RPUSH ''Cache.store:inputs'' ''(123,)'',
         RPUSH ''Cache.store:outputs'' uuid_a]
    \<and> counter_of (snd (store a_cache (PInt 123) used_world)) ''Cache.store'' = Some 4
    \<and> history_of (snd (store a_cache (PInt 123) used_world)) ''Cache.store:inputs''
        = Some [''(1,)'', ''(2,)'', ''(123,)'']
    \<and> history_of (snd (store a_cache (PInt 123) used_world)) ''Cache.store:outputs''
        = Some [uuid_a, uuid_a])
   \<and> (fst (store a_cache (PStr [CHR 0xC2, CHR 0xA0]) fresh_world) = Inr (PStr uuid_a)
    \<and> sent (snd (store a_cache (PStr [CHR 0xC2, CHR 0xA0]) fresh_world)) =
        [INCR ''Cache.store'', SET uuid_a [CHR 0xC2, CHR 0xA0],
         RPUSH ''Cache.store:inputs'' (''('' @ [CHR 0x27, CHR 0x5C] @ ''xa0'' @ [CHR 0x27] @ '',)''),
         RPUSH ''Cache.store:outputs'' uuid_a])"
proof -
  have h: "online used_world" "isinstance_Redis (redis a_cache)"
    "counter_of used_world ''Cache.store'' = Some 3" "(3::int) < 2 ^ 63 - 1"
    "history_of used_world ''Cache.store:inputs'' = Some [''(1,)'', ''(2,)'']"
    "history_of used_world ''Cache.store:outputs'' = Some [uuid_a]"
    "encode (PInt 123) = Inr ''123''"
    "is_uuid4_str (uuid_source used_world (uuid_drawn used_world))"
    by (simp_all add: used_world_def a_cache_def isinstance_Redis_def counter_of_def history_of_def
        string2ll_def is_digit_def nat_of_digits_def digit_val_def dec_int_def dec_nat.simps
        digit_char_def sample_uuids_def is_uuid4_str_def uuid_class_def uuid_a_def)
  have u: "uuid_source used_world (uuid_drawn used_world) = uuid_a" "sent used_world = []"
    by (simp_all add: used_world_def sample_uuids_def)
  have t: "str_tuple (isprintable used_world) [PInt 123] = ''(123,)''"
    by (simp add: str_tuple_def dec_int_def dec_nat.simps digit_char_def)
  have first: "fst (store a_cache (PInt 123) used_world) = Inr (PStr uuid_a)
    \<and> sent (snd (store a_cache (PInt 123) used_world)) =
        [INCR ''Cache.store'', SET uuid_a ''123'', RPUSH ''Cache.store:inputs'' ''(123,)'',
         RPUSH ''Cache.store:outputs'' uuid_a]
    \<and> counter_of (snd (store a_cache (PInt 123) used_world)) ''Cache.store'' = Some 4
    \<and> history_of (snd (store a_cache (PInt 123) used_world)) ''Cache.store:inputs''
        = Some [''(1,)'', ''(2,)'', ''(123,)'']
    \<and> history_of (snd (store a_cache (PInt 123) used_world)) ''Cache.store:outputs''
        = Some [uuid_a, uuid_a]"
    using store_effects_in_order [OF h] by (simp add: u t)
  have h': "online fresh_world" "isinstance_Redis (redis a_cache)"
    "counter_of fresh_world ''Cache.store'' = Some 0" "(0::int) < 2 ^ 63 - 1"
    "history_of fresh_world ''Cache.store:inputs'' = Some []"
    "history_of fresh_world ''Cache.store:outputs'' = Some []"
    "encode (PStr [CHR 0xC2, CHR 0xA0]) = Inr [CHR 0xC2, CHR 0xA0]"
    "is_uuid4_str (uuid_source fresh_world (uuid_drawn fresh_world))"
    using sample_uuids_ok
    by (simp_all add: fresh_world_def a_cache_def isinstance_Redis_def counter_of_def history_of_def)
  have u': "uuid_source fresh_world (uuid_drawn fresh_world) = uuid_a" "sent fresh_world = []"
    "isprintable fresh_world = sample_printable"
    by (simp_all add: fresh_world_def sample_uuids_def)
  have second: "fst (store a_cache (PStr [CHR 0xC2, CHR 0xA0]) fresh_world) = Inr (PStr uuid_a)
    \<and> sent (snd (store a_cache (PStr [CHR 0xC2, CHR 0xA0]) fresh_world)) =
        [INCR ''Cache.store'', SET uuid_a [CHR 0xC2, CHR 0xA0],
         RPUSH ''Cache.store:inputs'' (''('' @ [CHR 0x27, CHR 0x5C] @ ''xa0'' @ [CHR 0x27] @ '',)''),
         RPUSH ''Cache.store:outputs'' uuid_a]"
    using store_effects_in_order [OF h'] by (simp add: u' str_tuple_no_break_space)
  from first second show ?thesis by (rule conjI)
qed

text \<open>
  Claim C1. Whenever \<^verbatim>\<open>store(v)\<close> returns for a text, binary, integer or real \<open>v\<close>,
  it returns an identifier under which \<^verbatim>\<open>get\<close> gives back the byte form of \<open>v\<close>:
  the bytes themselves, the UTF-8 of a text, the decimal text of an integer, the
  \<^verbatim>\<open>repr\<close> of a real. For an integer, \<^verbatim>\<open>get_str\<close> gives its decimal text and
  \<^verbatim>\<open>get_int\<close> the integer; for a text, \<^verbatim>\<open>get_str\<close> gives the text.
\<close>

theorem store_then_get:
  assumes "is_scalar v" and "is_uuid4_str (uuid_source w (uuid_drawn w))"
  shows "(\<forall>r w'. store self v w = (Inr r, w') \<longrightarrow>
       (\<exists>k. r = PStr k
         \<and> fst (Cache_get self k None w') = Inr (PBytes (byte_form v))
         \<and> (\<forall>n. v = PInt n \<longrightarrow>
               fst (Cache_get self k None w') = Inr (PBytes (dec_int n))
               \<and> fst (Cache_get_str self k w') = Inr (PStr (dec_int n))
               \<and> fst (Cache_get_int self k w') = Inr (PInt n))
         \<and> (\<forall>s. v = PStr s \<and> valid_utf8 s \<longrightarrow>
               fst (Cache_get_str self k w') = Inr (PStr s))
         \<and> (\<forall>b. v = PBytes b \<longrightarrow> fst (Cache_get self k None w') = Inr (PBytes b))))
    \<and> (online w \<and> isinstance_Redis (redis self)
         \<and> (\<exists>c. counter_of w ''Cache.store'' = Some c \<and> c < 2 ^ 63 - 1)
         \<and> (\<exists>ins. history_of w ''Cache.store:inputs'' = Some ins)
         \<and> (\<exists>outs. history_of w ''Cache.store:outputs'' = Some outs)
       \<longrightarrow> (\<exists>w'. store self v w = (Inr (PStr (uuid_source w (uuid_drawn w))), w')))"
proof (intro conjI allI impI)
  fix r w' assume st: "store self v w = (Inr r, w')"
  from store_returns [OF st assms(2)] obtain k b where
    k: "r = PStr k" "encode v = Inr b" "db w' k = Some (RStr b)" "online w'" "redis self \<noteq> NoneHandle"
    by blast
  have b: "b = byte_form v" using k(2) encode_scalar [OF assms(1)] by simp
  note g = Cache_get_online [OF k(4,5), of k]
  have 1: "fst (Cache_get self k None w') = Inr (PBytes (byte_form v))"
    using k(3) b by (simp add: g ret_def)
  have 2: "\<forall>n. v = PInt n \<longrightarrow>
          fst (Cache_get self k None w') = Inr (PBytes (dec_int n))
          \<and> fst (Cache_get_str self k w') = Inr (PStr (dec_int n))
          \<and> fst (Cache_get_int self k w') = Inr (PInt n)"
    using k(3) b
    by (auto simp: g ret_def Cache_get_str_def Cache_get_int_def decode_utf8_def to_int_def
        valid_utf8_dec_int py_int_of_dec_int)
  have 3: "\<forall>s. v = PStr s \<and> valid_utf8 s \<longrightarrow> fst (Cache_get_str self k w') = Inr (PStr s)"
    using k(3) b by (auto simp: g ret_def Cache_get_str_def decode_utf8_def)
  have 4: "\<forall>b. v = PBytes b \<longrightarrow> fst (Cache_get self k None w') = Inr (PBytes b)"
    using 1 by auto
  from k(1) 1 2 3 4
  show "\<exists>k. r = PStr k
         \<and> fst (Cache_get self k None w') = Inr (PBytes (byte_form v))
         \<and> (\<forall>n. v = PInt n \<longrightarrow>
               fst (Cache_get self k None w') = Inr (PBytes (dec_int n))
               \<and> fst (Cache_get_str self k w') = Inr (PStr (dec_int n))
               \<and> fst (Cache_get_int self k w') = Inr (PInt n))
         \<and> (\<forall>s. v = PStr s \<and> valid_utf8 s \<longrightarrow>
               fst (Cache_get_str self k w') = Inr (PStr s))
         \<and> (\<forall>b. v = PBytes b \<longrightarrow> fst (Cache_get self k None w') = Inr (PBytes b))"
    by blast
next
  assume a: "online w \<and> isinstance_Redis (redis self)
         \<and> (\<exists>c. counter_of w ''Cache.store'' = Some c \<and> c < 2 ^ 63 - 1)
         \<and> (\<exists>ins. history_of w ''Cache.store:inputs'' = Some ins)
         \<and> (\<exists>outs. history_of w ''Cache.store:outputs'' = Some outs)"
  then obtain c ins outs where h: "online w" "isinstance_Redis (redis self)"
    "counter_of w ''Cache.store'' = Some c" "c < 2 ^ 63 - 1"
    "history_of w ''Cache.store:inputs'' = Some ins"
    "history_of w ''Cache.store:outputs'' = Some outs"
    by blast
  from store_step [OF h encode_scalar [OF assms(1)] assms(2)]
  show "\<exists>w'. store self v w = (Inr (PStr (uuid_source w (uuid_drawn w))), w')"
    by blast
qed

theorem store_then_get_witness:
  "fst (store a_cache (PInt 123) fresh_world) = Inr (PStr uuid_a)
   \<and> fst (Cache_get a_cache uuid_a None (snd (store a_cache (PInt 123) fresh_world)))
       = Inr (PBytes ''123'')
   \<and> fst (Cache_get_str a_cache uuid_a (snd (store a_cache (PInt 123) fresh_world)))
       = Inr (PStr ''123'')
   \<and> fst (Cache_get_int a_cache uuid_a (snd (store a_cache (PInt 123) fresh_world)))
       = Inr (PInt 123)"
proof -
  define w' where "w' = snd (store a_cache (PInt 123) fresh_world)"
  have h: "online fresh_world" "isinstance_Redis (redis a_cache)"
    "counter_of fresh_world ''Cache.store'' = Some 0" "(0::int) < 2 ^ 63 - 1"
    "history_of fresh_world ''Cache.store:inputs'' = Some []"
    "history_of fresh_world ''Cache.store:outputs'' = Some []"
    "encode (PInt 123) = Inr (dec_int 123)"
    by (simp_all add: fresh_world_def a_cache_def isinstance_Redis_def counter_of_def history_of_def)
  have u: "uuid_source fresh_world (uuid_drawn fresh_world) = uuid_a"
    by (simp add: fresh_world_def sample_uuids_def)
  have uu: "is_uuid4_str (uuid_source fresh_world (uuid_drawn fresh_world))"
    using sample_uuids_ok by (simp add: fresh_world_def)
  have st: "store a_cache (PInt 123) fresh_world = (Inr (PStr uuid_a), w')"
    using store_step [OF h uu] by (simp add: w'_def u)
  have d: "dec_int 123 = ''123''" by (simp add: dec_int_def dec_nat.simps digit_char_def)
  have sc: "is_scalar (PInt 123)" by simp
  from store_then_get [OF sc uu, THEN conjunct1, rule_format, OF st] show ?thesis
    using st by (simp add: w'_def [symmetric] d)
qed

text \<open>A run of successful calls, from any world where the counter and histories are readable.\<close>

lemma store_all_run:
  assumes "online w" and "isinstance_Redis (redis self)"
    and "counter_of w ''Cache.store'' = Some c"
    and "c + int (length vs) < 2 ^ 63"
    and "history_of w ''Cache.store:inputs'' = Some ins"
    and "history_of w ''Cache.store:outputs'' = Some outs"
    and "\<forall>v \<in> set vs. is_scalar v"
    and "\<forall>i. is_uuid4_str (uuid_source w i)"
  shows "\<exists>w'. store_all self vs w =
        (Inr (map (uuid_source w) [uuid_drawn w..<uuid_drawn w + length vs]), w')
    \<and> counter_of w' ''Cache.store'' = Some (c + int (length vs))
    \<and> history_of w' ''Cache.store:inputs'' = Some (ins @ map (\<lambda>v. str_tuple (isprintable w) [v]) vs)
    \<and> history_of w' ''Cache.store:outputs''
        = Some (outs @ map (uuid_source w) [uuid_drawn w..<uuid_drawn w + length vs])"
  using assms
proof (induction vs arbitrary: w c ins outs)
  case Nil
  then show ?case by (simp add: ret_def)
next
  case (Cons v vs)
  define k where "k = uuid_source w (uuid_drawn w)"
  have ku: "is_uuid4_str k" using Cons.prems(8) by (simp add: k_def)
  note nk = uuid_not_store_key [OF ku]
  have lim: "c < 2 ^ 63 - 1" using Cons.prems(4) by simp
  have enc: "encode v = Inr (byte_form v)" using Cons.prems(7) by (simp add: encode_scalar)
  define w1 where "w1 = snd (store self v w)"
  have step: "store self v w = (Inr (PStr k), w1)"
    using store_step [OF Cons.prems(1,2,3) lim Cons.prems(5,6) enc ku [unfolded k_def]]
    by (simp add: w1_def k_def)
  have w1: "w1 = w\<lparr>uuid_drawn := Suc (uuid_drawn w),
        sent := sent w @ [INCR ''Cache.store'', SET k (byte_form v),
                          RPUSH ''Cache.store:inputs'' (str_tuple (isprintable w) [v]),
                          RPUSH ''Cache.store:outputs'' k],
        db := (db w)(''Cache.store'' \<mapsto> RStr (dec_int (c + 1)), k \<mapsto> RStr (byte_form v),
                     ''Cache.store:inputs'' \<mapsto> RList (ins @ [str_tuple (isprintable w) [v]]),
                     ''Cache.store:outputs'' \<mapsto> RList (outs @ [k]))\<rparr>"
    using store_step [OF Cons.prems(1,2,3) lim Cons.prems(5,6) enc ku [unfolded k_def]]
    by (simp add: w1_def k_def)
  from counter_of_range [OF Cons.prems(3)] lim
  have rt: "string2ll (dec_int (c + 1)) = Some (c + 1)"
    by (intro string2ll_dec_int) auto
  have p1: "online w1" "counter_of w1 ''Cache.store'' = Some (c + 1)"
    "history_of w1 ''Cache.store:inputs'' = Some (ins @ [str_tuple (isprintable w) [v]])"
    "history_of w1 ''Cache.store:outputs'' = Some (outs @ [k])"
    "uuid_source w1 = uuid_source w" "uuid_drawn w1 = Suc (uuid_drawn w)"
    "isprintable w1 = isprintable w"
    using Cons.prems(1) nk rt by (simp_all add: w1 counter_of_def history_of_def)
  have p2: "c + 1 + int (length vs) < 2 ^ 63" "\<forall>v \<in> set vs. is_scalar v"
    "\<forall>i. is_uuid4_str (uuid_source w1 i)"
    using Cons.prems(4,7,8) p1(5) by simp_all
  from Cons.IH [OF p1(1) Cons.prems(2) p1(2) p2(1) p1(3,4) p2(2,3)]
  obtain w' where rest: "store_all self vs w1 =
        (Inr (map (uuid_source w) [Suc (uuid_drawn w)..<Suc (uuid_drawn w) + length vs]), w')"
    "counter_of w' ''Cache.store'' = Some (c + 1 + int (length vs))"
    "history_of w' ''Cache.store:inputs'' = Some ((ins @ [str_tuple (isprintable w) [v]]) @ map (\<lambda>v. str_tuple (isprintable w) [v]) vs)"
    "history_of w' ''Cache.store:outputs''
        = Some ((outs @ [k]) @ map (uuid_source w) [Suc (uuid_drawn w)..<Suc (uuid_drawn w) + length vs])"
    by (auto simp: p1(5,6,7))
  have idx: "[uuid_drawn w..<uuid_drawn w + length (v # vs)]
      = uuid_drawn w # [Suc (uuid_drawn w)..<Suc (uuid_drawn w) + length vs]"
    by (simp add: upt_rec)
  have "store_all self (v # vs) w =
      (Inr (map (uuid_source w) [uuid_drawn w..<uuid_drawn w + length (v # vs)]), w')"
    using step rest(1) unfolding idx by (simp add: io_bind_def ret_def k_def)
  moreover have "counter_of w' ''Cache.store'' = Some (c + int (length (v # vs)))"
    using rest(2) by (simp add: add.commute add.left_commute)
  moreover have "history_of w' ''Cache.store:inputs'' = Some (ins @ map (\<lambda>v. str_tuple (isprintable w) [v]) (v # vs))"
    using rest(3) by simp
  moreover have "history_of w' ''Cache.store:outputs''
        = Some (outs @ map (uuid_source w) [uuid_drawn w..<uuid_drawn w + length (v # vs)])"
    using rest(4) unfolding idx by (simp add: k_def)
  ultimately show ?case by blast
qed

text \<open>
  Claim C3. A new cache, then \<open>N\<close> calls of \<^verbatim>\<open>store\<close> on scalar values, one after the
  other, with \<open>N\<close> below \<open>2^63\<close>: every call returns, the counter reads \<open>N\<close>, the two
  histories have \<open>N\<close> entries each, in call order, entry \<open>i\<close> of the inputs being the
  display form of the arguments of call \<open>i\<close> and entry \<open>i\<close> of the outputs the
  identifier that call returned.
\<close>

theorem store_counts_and_histories:
  assumes "online w" and "\<forall>i. is_uuid4_str (uuid_source w i)"
    and "\<forall>v \<in> set vs. is_scalar v" and "int (length vs) < 2 ^ 63"
  shows "fst (io_bind Cache_init (\<lambda>self. store_all self vs) w)
        = Inr (map (uuid_source w) [uuid_drawn w..<uuid_drawn w + length vs])
    \<and> counter_of (snd (io_bind Cache_init (\<lambda>self. store_all self vs) w)) ''Cache.store''
        = Some (int (length vs))
    \<and> history_of (snd (io_bind Cache_init (\<lambda>self. store_all self vs) w)) ''Cache.store:inputs''
        = Some (map (\<lambda>v. str_tuple (isprintable w) [v]) vs)
    \<and> history_of (snd (io_bind Cache_init (\<lambda>self. store_all self vs) w)) ''Cache.store:outputs''
        = Some (map (uuid_source w) [uuid_drawn w..<uuid_drawn w + length vs])
    \<and> map_option length
          (history_of (snd (io_bind Cache_init (\<lambda>self. store_all self vs) w)) ''Cache.store:inputs'')
        = Some (length vs)
    \<and> map_option length
          (history_of (snd (io_bind Cache_init (\<lambda>self. store_all self vs) w)) ''Cache.store:outputs'')
        = Some (length vs)"
proof -
  define w0 where "w0 = w\<lparr>sent := sent w @ [FLUSHDB True], db := Map.empty\<rparr>"
  have init: "Cache_init w = (Inr \<lparr>redis = RedisInst\<rparr>, w0)"
    using Cache_init_online [OF assms(1)] by (simp add: w0_def)
  have p: "online w0" "isinstance_Redis (redis \<lparr>redis = RedisInst\<rparr>)"
    "counter_of w0 ''Cache.store'' = Some 0" "0 + int (length vs) < 2 ^ 63"
    "history_of w0 ''Cache.store:inputs'' = Some []"
    "history_of w0 ''Cache.store:outputs'' = Some []"
    "\<forall>i. is_uuid4_str (uuid_source w0 i)"
    using assms by (simp_all add: w0_def isinstance_Redis_def counter_of_def history_of_def)
  from store_all_run [OF p(1-6) assms(3) p(7)] obtain w' where
    "store_all \<lparr>redis = RedisInst\<rparr> vs w0 =
        (Inr (map (uuid_source w) [uuid_drawn w..<uuid_drawn w + length vs]), w')"
    "counter_of w' ''Cache.store'' = Some (int (length vs))"
    "history_of w' ''Cache.store:inputs'' = Some (map (\<lambda>v. str_tuple (isprintable w) [v]) vs)"
    "history_of w' ''Cache.store:outputs''
        = Some (map (uuid_source w) [uuid_drawn w..<uuid_drawn w + length vs])"
    by (auto simp: w0_def)
  then show ?thesis using init by (simp add: io_bind_def)
qed

theorem store_counts_and_histories_witness:
  "fst (io_bind Cache_init (\<lambda>self. store_all self [PStr ''foo'', PInt 123]) used_world)
     = Inr [uuid_a, uuid_b]
   \<and> counter_of (snd (io_bind Cache_init (\<lambda>self. store_all self [PStr ''foo'', PInt 123]) used_world))
       ''Cache.store'' = Some 2
   \<and> history_of (snd (io_bind Cache_init (\<lambda>self. store_all self [PStr ''foo'', PInt 123]) used_world))
       ''Cache.store:inputs'' = Some [[CHR ''('', CHR 0x27] @ ''foo'' @ [CHR 0x27] @ '',)'', ''(123,)'']
   \<and> history_of (snd (io_bind Cache_init (\<lambda>self. store_all self [PStr ''foo'', PInt 123]) used_world))
       ''Cache.store:outputs'' = Some [uuid_a, uuid_b]"
proof -
  have h: "online used_world" "\<forall>i. is_uuid4_str (uuid_source used_world i)"
    "\<forall>v \<in> set [PStr ''foo'', PInt 123]. is_scalar v"
    "int (length [PStr ''foo'', PInt 123]) < 2 ^ 63"
    using sample_uuids_ok by (simp_all add: used_world_def)
  have ks: "map (uuid_source used_world)
      [uuid_drawn used_world..<uuid_drawn used_world + length [PStr ''foo'', PInt 123]]
      = [uuid_a, uuid_b]"
    by (simp add: used_world_def sample_uuids_def)
  have t: "map (\<lambda>v. str_tuple (isprintable used_world) [v]) [PStr ''foo'', PInt 123]
      = [[CHR ''('', CHR 0x27] @ ''foo'' @ [CHR 0x27] @ '',)'', ''(123,)'']"
    by (simp add: str_tuple_def repr_str_def py_quote_def repr_char_def repr_byte_def byte_in_def
        dec_int_def dec_nat.simps digit_char_def)
  from store_counts_and_histories [OF h] show ?thesis
    unfolding ks t by simp
qed

end
